theory Spec2Isabelle
  imports Complex_Main "HOL-Library.Word" "HOL-Library.Monad_Syntax" "HOL-Library.Log_Nat"
begin

unbundle bit_operations_syntax

section \<open>Double precision numbers\<close>

text \<open>
  The embedded program is the tablet handling of the compositor: the classifier
  \<open>tool_supports_absolute_motion\<close>, the two coordinate transforms
  \<open>adjust_for_tablet_area\<close> and \<open>adjust_for_rotation\<close>, the event handlers
  \<open>handle_proximity\<close>, \<open>handle_axis\<close>, \<open>handle_tip\<close>, \<open>handle_button\<close>,
  \<open>handle_destroy\<close> and the constructor \<open>tablet_init\<close>.

  The transforms compute in C's \<open>double\<close>, the binary64 format of IEEE 754 with
  rounding to nearest, ties to even. A \<open>double\<close> is a finite number, an infinity or a
  NaN. A finite double is given by its value, a real number with at most 53 significant
  binary digits that is a multiple of \<open>2 powi (- 1074)\<close> and smaller in magnitude than
  \<open>2 ^ 1024\<close>. Every operation is the exact operation on the values followed by
  \<open>round_double\<close>, which rounds to the nearest double, goes to the quantum
  \<open>2 powi (- 1074)\<close> below the normal range and to an infinity at \<open>2 ^ 1024\<close>.

  The two zeros of the format are one value here: C's comparisons and \<open>!\<close> do not
  tell them apart, and the only divisor of the program that can be zero is the
  difference \<open>tablet_width - box.x\<close> of two equal nonzero numbers, which is the
  positive zero.
\<close>

datatype double = Finite real | PlusInf | MinusInf | NaN

text \<open>Rounding a real number to the nearest integer, a tie to the even one.\<close>

definition rne :: "real \<Rightarrow> int" where
  "rne t = (let f = \<lfloor>t\<rfloor>; d = t - of_int f in
            if d < 1 / 2 then f else if 1 / 2 < d then f + 1
            else if even f then f else f + 1)"

text \<open>
  The binary exponent of a nonzero number \<open>r\<close>: the \<open>e\<close> with
  \<open>2 powi e \<le> \<bar>r\<bar> < 2 powi (e + 1)\<close>, computed from the bit length of an integer.
\<close>

definition binade :: "real \<Rightarrow> int" where
  "binade r = (if 1 \<le> \<bar>r\<bar> then int (floorlog 2 (nat \<lfloor>\<bar>r\<bar>\<rfloor>)) - 1
               else - int (floorlog 2 (nat (\<lceil>1 / \<bar>r\<bar>\<rceil> - 1))))"

text \<open>
  The spacing of the doubles around \<open>r\<close>: 53 significant digits in the normal range,
  the fixed spacing of the subnormal numbers below \<open>2 powi (- 1022)\<close>.
\<close>

definition quantum :: "real \<Rightarrow> real" where
  "quantum r = 2 powi (max (binade r) (- 1022) - 52)"

definition huge :: real where
  "huge = 2 ^ 1024"

definition round_double :: "real \<Rightarrow> double" where
  "round_double r =
     (if r = 0 then Finite 0
      else let q = quantum r; v = of_int (rne (r / q)) * q in
           if huge \<le> \<bar>v\<bar> then (if 0 < r then PlusInf else MinusInf) else Finite v)"

text \<open>The value that \<open>round_double\<close> finds before it looks at the range.\<close>

definition rounded :: "real \<Rightarrow> real" where
  "rounded r = of_int (rne (r / quantum r)) * quantum r"

text \<open>A value of the type that the format has: rounding leaves a finite one as it is.\<close>

fun is_double :: "double \<Rightarrow> bool" where
  "is_double (Finite r) = (round_double r = Finite r)"
| "is_double _ = True"

text \<open>The operators of C on doubles: unary minus, \<open>+\<close>, \<open>-\<close>, \<open>*\<close>, \<open>/\<close>, \<open><=\<close>, \<open>!\<close>.\<close>

fun double_neg :: "double \<Rightarrow> double" where
  "double_neg (Finite r) = Finite (- r)"
| "double_neg PlusInf = MinusInf"
| "double_neg MinusInf = PlusInf"
| "double_neg NaN = NaN"

fun double_add :: "double \<Rightarrow> double \<Rightarrow> double" where
  "double_add NaN _ = NaN"
| "double_add _ NaN = NaN"
| "double_add (Finite a) (Finite b) = round_double (a + b)"
| "double_add PlusInf MinusInf = NaN"
| "double_add MinusInf PlusInf = NaN"
| "double_add PlusInf _ = PlusInf"
| "double_add _ PlusInf = PlusInf"
| "double_add MinusInf _ = MinusInf"
| "double_add _ MinusInf = MinusInf"

definition double_sub :: "double \<Rightarrow> double \<Rightarrow> double" where
  "double_sub a b = double_add a (double_neg b)"

fun double_mul :: "double \<Rightarrow> double \<Rightarrow> double" where
  "double_mul NaN _ = NaN"
| "double_mul _ NaN = NaN"
| "double_mul (Finite a) (Finite b) = round_double (a * b)"
| "double_mul (Finite a) PlusInf = (if a = 0 then NaN else if 0 < a then PlusInf else MinusInf)"
| "double_mul (Finite a) MinusInf = (if a = 0 then NaN else if 0 < a then MinusInf else PlusInf)"
| "double_mul PlusInf (Finite b) = (if b = 0 then NaN else if 0 < b then PlusInf else MinusInf)"
| "double_mul MinusInf (Finite b) = (if b = 0 then NaN else if 0 < b then MinusInf else PlusInf)"
| "double_mul PlusInf PlusInf = PlusInf"
| "double_mul MinusInf MinusInf = PlusInf"
| "double_mul PlusInf MinusInf = MinusInf"
| "double_mul MinusInf PlusInf = MinusInf"

text \<open>
  A zero divisor is the positive zero (see above): a nonzero dividend gives the infinity
  of its own sign, and zero by zero is a NaN.
\<close>

fun double_div :: "double \<Rightarrow> double \<Rightarrow> double" where
  "double_div NaN _ = NaN"
| "double_div _ NaN = NaN"
| "double_div (Finite a) (Finite b) =
     (if b = 0 then (if a = 0 then NaN else if 0 < a then PlusInf else MinusInf)
      else round_double (a / b))"
| "double_div (Finite a) _ = Finite 0"
| "double_div PlusInf (Finite b) = (if 0 \<le> b then PlusInf else MinusInf)"
| "double_div MinusInf (Finite b) = (if 0 \<le> b then MinusInf else PlusInf)"
| "double_div _ _ = NaN"

fun double_le :: "double \<Rightarrow> double \<Rightarrow> bool" where
  "double_le NaN _ = False"
| "double_le _ NaN = False"
| "double_le MinusInf _ = True"
| "double_le _ PlusInf = True"
| "double_le (Finite a) (Finite b) = (a \<le> b)"
| "double_le _ _ = False"

definition is_zero :: "double \<Rightarrow> bool" where
  "is_zero d = (d = Finite 0)"

fun is_negative :: "double \<Rightarrow> bool" where
  "is_negative (Finite r) = (r < 0)"
| "is_negative MinusInf = True"
| "is_negative _ = False"

section \<open>Tablet input: data model\<close>

text \<open>
  The tool's type tag, \<open>enum wlr_tablet_tool_type\<close>. A C enumeration can hold a value
  that none of its enumerators names; \<open>WLR_TABLET_TOOL_TYPE_UNKNOWN\<close> carries such a
  raw tag.
\<close>

datatype wlr_tablet_tool_type =
    WLR_TABLET_TOOL_TYPE_PEN
  | WLR_TABLET_TOOL_TYPE_ERASER
  | WLR_TABLET_TOOL_TYPE_BRUSH
  | WLR_TABLET_TOOL_TYPE_PENCIL
  | WLR_TABLET_TOOL_TYPE_AIRBRUSH
  | WLR_TABLET_TOOL_TYPE_MOUSE
  | WLR_TABLET_TOOL_TYPE_LENS
  | WLR_TABLET_TOOL_TYPE_TOTEM
  | WLR_TABLET_TOOL_TYPE_UNKNOWN int

text \<open>\<open>struct wlr_fbox\<close>: the configured active area, in millimetres.\<close>

record wlr_fbox =
  box_x :: double
  box_y :: double
  box_width :: double
  box_height :: double

datatype rotation = LAB_ROTATE_NONE | LAB_ROTATE_90 | LAB_ROTATE_180 | LAB_ROTATE_270

section \<open>The classifier and the transforms\<close>

fun tool_supports_absolute_motion :: "wlr_tablet_tool_type \<Rightarrow> bool" where
  "tool_supports_absolute_motion WLR_TABLET_TOOL_TYPE_MOUSE = False"
| "tool_supports_absolute_motion WLR_TABLET_TOOL_TYPE_LENS = False"
| "tool_supports_absolute_motion _ = True"

text \<open>
  \<open>adjust_for_tablet_area\<close> updates \<open>*x\<close> and \<open>*y\<close> in place; the model returns
  the pair of their final values. A coordinate the function does not assign keeps its
  input value.
\<close>

definition adjust_for_tablet_area ::
  "double \<Rightarrow> double \<Rightarrow> wlr_fbox \<Rightarrow> double \<Rightarrow> double \<Rightarrow> double \<times> double" where
  "adjust_for_tablet_area tablet_width tablet_height box x y =
     (if (is_zero (box_x box) \<and> is_zero (box_y box)
            \<and> is_zero (box_width box) \<and> is_zero (box_height box))
         \<or> is_zero tablet_width \<or> is_zero tablet_height
      then (x, y)
      else
        let width = (if is_zero (box_width box)
                     then double_sub tablet_width (box_x box) else box_width box);
            height = (if is_zero (box_height box)
                      then double_sub tablet_height (box_y box) else box_height box);
            x' = (if double_le (double_add (box_x box) width) tablet_width
                  then let max_x = Finite 1;
                           width_offset = double_div (double_mul max_x (box_x box)) tablet_width
                       in double_div (double_mul (double_sub x width_offset) tablet_width) width
                  else x);
            y' = (if double_le (double_add (box_y box) height) tablet_height
                  then let max_y = Finite 1;
                           height_offset = double_div (double_mul max_y (box_y box)) tablet_height
                       in double_div (double_mul (double_sub y height_offset) tablet_height) height
                  else y)
        in (x', y'))"

fun adjust_for_rotation :: "rotation \<Rightarrow> double \<Rightarrow> double \<Rightarrow> double \<times> double" where
  "adjust_for_rotation LAB_ROTATE_NONE x y = (x, y)"
| "adjust_for_rotation LAB_ROTATE_90 x y = (double_sub (Finite 1) y, x)"
| "adjust_for_rotation LAB_ROTATE_180 x y = (double_sub (Finite 1) x, double_sub (Finite 1) y)"
| "adjust_for_rotation LAB_ROTATE_270 x y = (y, double_sub (Finite 1) x)"

text \<open>
  Names for what \<open>adjust_for_tablet_area\<close> tests and computes on one axis, with the
  physical dimension, the offset \<open>box.x\<close> (\<open>box.y\<close>) and the size \<open>box.width\<close>
  (\<open>box.height\<close>) of that axis: \<open>all_zero\<close> is the first disjunct of the early
  return; \<open>resolved_size\<close> is the size once a zero has been replaced by the distance to
  the far edge; \<open>axis_fits\<close> is the test that guards the adjustment; \<open>millimetres\<close> is
  the dividend and \<open>scaled\<close> the value that the adjustment assigns.
\<close>

definition all_zero :: "wlr_fbox \<Rightarrow> bool" where
  "all_zero box = (is_zero (box_x box) \<and> is_zero (box_y box)
                    \<and> is_zero (box_width box) \<and> is_zero (box_height box))"

definition resolved_size :: "double \<Rightarrow> double \<Rightarrow> double \<Rightarrow> double" where
  "resolved_size dimension offset extent =
     (if is_zero extent then double_sub dimension offset else extent)"

definition axis_fits :: "double \<Rightarrow> double \<Rightarrow> double \<Rightarrow> bool" where
  "axis_fits dimension offset extent =
     double_le (double_add offset (resolved_size dimension offset extent)) dimension"

definition millimetres :: "double \<Rightarrow> double \<Rightarrow> double \<Rightarrow> double" where
  "millimetres dimension offset v =
     double_mul (double_sub v (double_div (double_mul (Finite 1) offset) dimension)) dimension"

definition scaled :: "double \<Rightarrow> double \<Rightarrow> double \<Rightarrow> double \<Rightarrow> double" where
  "scaled dimension offset extent v =
     double_div (millimetres dimension offset v) (resolved_size dimension offset extent)"

text \<open>A coordinate handed to the cursor lies in the interval from 0 to 1.\<close>

fun in_unit_interval :: "double \<Rightarrow> bool" where
  "in_unit_interval (Finite r) = (0 \<le> r \<and> r \<le> 1)"
| "in_unit_interval _ = False"

definition unit_square :: "(double \<times> double) set" where
  "unit_square = {p. in_unit_interval (fst p) \<and> in_unit_interval (snd p)}"

text \<open>
  The coordinates of the unit interval that are multiples of \<open>1 / 2 ^ 53\<close>. For such a
  coordinate \<open>c\<close> the difference \<open>1 - c\<close> is a double.
\<close>

fun on_grid :: "double \<Rightarrow> bool" where
  "on_grid (Finite r) = (0 \<le> r \<and> r \<le> 1 \<and> of_int \<lfloor>r * 2 ^ 53\<rfloor> = r * 2 ^ 53)"
| "on_grid _ = False"

definition grid_square :: "(double \<times> double) set" where
  "grid_square = {p. on_grid (fst p) \<and> on_grid (snd p)}"

text \<open>The rotation as a map on coordinate pairs.\<close>

definition apply_rotation :: "rotation \<Rightarrow> double \<times> double \<Rightarrow> double \<times> double" where
  "apply_rotation r p = adjust_for_rotation r (fst p) (snd p)"

text \<open>The rotation that undoes a rotation where the arithmetic is exact.\<close>

fun inverse_rotation :: "rotation \<Rightarrow> rotation" where
  "inverse_rotation LAB_ROTATE_NONE = LAB_ROTATE_NONE"
| "inverse_rotation LAB_ROTATE_90 = LAB_ROTATE_270"
| "inverse_rotation LAB_ROTATE_180 = LAB_ROTATE_180"
| "inverse_rotation LAB_ROTATE_270 = LAB_ROTATE_90"

text \<open>
  A stored coordinate \<open>v\<close> lies within the configured area on its axis, as the code
  computes it: the resolved size \<open>w\<close> and the dividend \<open>n\<close> are finite, \<open>w\<close> is
  positive and \<open>0 \<le> n \<le> w\<close>.
\<close>

definition within_area :: "double \<Rightarrow> double \<Rightarrow> double \<Rightarrow> double \<Rightarrow> bool" where
  "within_area dimension offset extent v =
     (case (millimetres dimension offset v, resolved_size dimension offset extent) of
        (Finite n, Finite w) \<Rightarrow> 0 \<le> n \<and> n \<le> w \<and> 0 < w
      | _ \<Rightarrow> False)"

section \<open>The device record and the event handlers\<close>

text \<open>
  \<open>struct drawing_tablet\<close>, with the fields of its \<open>struct wlr_tablet\<close> that the
  handlers read: the seat and the input device are identified by numbers, \<open>width_mm\<close>
  and \<open>height_mm\<close> are \<open>tablet->tablet->width_mm\<close> and \<open>height_mm\<close>, and
  \<open>tablet_x\<close>, \<open>tablet_y\<close> are the stored position \<open>tablet->x\<close>, \<open>tablet->y\<close>.
\<close>

record drawing_tablet =
  seat :: nat
  base :: nat
  width_mm :: double
  height_mm :: double
  tablet_x :: double
  tablet_y :: double

text \<open>The configuration \<open>rc.tablet\<close>, read at every axis event.\<close>

record rcxml_tablet =
  rc_tablet_box :: wlr_fbox
  rc_tablet_rotation :: rotation

datatype wlr_button_state = WLR_BUTTON_RELEASED | WLR_BUTTON_PRESSED

datatype wlr_tablet_tool_tip_state = WLR_TABLET_TOOL_TIP_UP | WLR_TABLET_TOOL_TIP_DOWN

datatype wlr_tablet_tool_proximity_state =
  WLR_TABLET_TOOL_PROXIMITY_OUT | WLR_TABLET_TOOL_PROXIMITY_IN

record wlr_tablet_tool_proximity_event =
  proximity_tool :: wlr_tablet_tool_type
  proximity_state :: wlr_tablet_tool_proximity_state

record wlr_tablet_tool_axis_event =
  axis_tool :: wlr_tablet_tool_type
  axis_time_msec :: "32 word"
  axis_updated_axes :: "32 word"
  axis_x :: double
  axis_y :: double

record wlr_tablet_tool_tip_event =
  tip_state :: wlr_tablet_tool_tip_state
  tip_time_msec :: "32 word"

record wlr_tablet_tool_button_event =
  button_button :: "32 word"
  button_state :: wlr_button_state
  button_time_msec :: "32 word"

text \<open>
  Constants of the headers the file includes: the bits of \<open>updated_axes\<close> for the two
  position axes (wlroots, \<open>1 << 0\<close> and \<open>1 << 1\<close>) and the key code of the pen tool
  (\<open>linux/input-event-codes.h\<close>, \<open>0x140\<close>).
\<close>

definition WLR_TABLET_TOOL_AXIS_X :: "32 word" where
  "WLR_TABLET_TOOL_AXIS_X = 1"

definition WLR_TABLET_TOOL_AXIS_Y :: "32 word" where
  "WLR_TABLET_TOOL_AXIS_Y = 2"

definition BTN_TOOL_PEN :: "32 word" where
  "BTN_TOOL_PEN = 320"

text \<open>The five listeners of \<open>tablet->handlers\<close>.\<close>

datatype handler = Axis | Proximity | Tip | Button | Destroy

text \<open>
  What a handler does to the world outside the record is a list of calls, in the order
  the code makes them: the two operations of the cursor emulation, a log line (its
  format string), the registration and the removal of a listener, and the release of
  the record. \<open>Notify\<close> records that the event source has invoked a listener's callback.
\<close>

datatype call =
    Cursor_emulate_move_absolute nat nat double double "32 word"
  | Cursor_emulate_button nat "32 word" wlr_button_state "32 word"
  | Wlr_log string
  | Wl_signal_add handler
  | Wl_list_remove handler
  | Free_tablet
  | Notify handler

definition handle_proximity ::
  "wlr_tablet_tool_proximity_event \<Rightarrow> drawing_tablet \<Rightarrow> drawing_tablet \<times> call list" where
  "handle_proximity ev tablet =
     (if \<not> tool_supports_absolute_motion (proximity_tool ev)
      then (if proximity_state ev = WLR_TABLET_TOOL_PROXIMITY_IN
            then (tablet, [Wlr_log ''ignoring not supporting tablet tool''])
            else (tablet, []))
      else (tablet, []))"

definition handle_axis ::
  "rcxml_tablet \<Rightarrow> wlr_tablet_tool_axis_event \<Rightarrow> drawing_tablet \<Rightarrow> drawing_tablet \<times> call list" where
  "handle_axis rc ev tablet =
     (if \<not> tool_supports_absolute_motion (axis_tool ev) then (tablet, [])
      else if axis_updated_axes ev AND (WLR_TABLET_TOOL_AXIS_X OR WLR_TABLET_TOOL_AXIS_Y) \<noteq> 0
      then
        let tablet1 = (if axis_updated_axes ev AND WLR_TABLET_TOOL_AXIS_X \<noteq> 0
                       then tablet\<lparr>tablet_x := axis_x ev\<rparr> else tablet);
            tablet2 = (if axis_updated_axes ev AND WLR_TABLET_TOOL_AXIS_Y \<noteq> 0
                       then tablet1\<lparr>tablet_y := axis_y ev\<rparr> else tablet1);
            (x, y) = adjust_for_tablet_area (width_mm tablet2) (height_mm tablet2)
                       (rc_tablet_box rc) (tablet_x tablet2) (tablet_y tablet2);
            (x', y') = adjust_for_rotation (rc_tablet_rotation rc) x y
        in (tablet2,
            [Cursor_emulate_move_absolute (seat tablet2) (base tablet2) x' y' (axis_time_msec ev)])
      else (tablet, []))"

text \<open>
  \<open>tablet_get_mapped_button\<close> is the configuration's lookup from a raw button code to
  the emulated one, 0 when the code is not mapped. It is a collaborator of this file and
  a parameter of the two handlers that call it.
\<close>

definition handle_tip ::
  "(32 word \<Rightarrow> 32 word) \<Rightarrow> wlr_tablet_tool_tip_event \<Rightarrow> drawing_tablet
     \<Rightarrow> drawing_tablet \<times> call list" where
  "handle_tip tablet_get_mapped_button ev tablet =
     (let button = tablet_get_mapped_button BTN_TOOL_PEN in
      if button = 0 then (tablet, [])
      else (tablet,
            [Cursor_emulate_button (seat tablet) button
               (if tip_state ev = WLR_TABLET_TOOL_TIP_DOWN
                then WLR_BUTTON_PRESSED else WLR_BUTTON_RELEASED)
               (tip_time_msec ev)]))"

definition handle_button ::
  "(32 word \<Rightarrow> 32 word) \<Rightarrow> wlr_tablet_tool_button_event \<Rightarrow> drawing_tablet
     \<Rightarrow> drawing_tablet \<times> call list" where
  "handle_button tablet_get_mapped_button ev tablet =
     (let button = tablet_get_mapped_button (button_button ev) in
      if button = 0 then (tablet, [])
      else (tablet,
            [Cursor_emulate_button (seat tablet) button (button_state ev) (button_time_msec ev)]))"

section \<open>Creation, destruction and the delivery of events\<close>

text \<open>
  A device as the event source sees it: the record, \<open>None\<close> once it has been freed,
  and the listeners of the record that are linked into a signal of the device.
\<close>

record device =
  tablet :: "drawing_tablet option"
  linked :: "handler set"

text \<open>
  \<open>wl_list_remove\<close> unlinks a listener. Unlinking a listener that is not linked
  follows a stale or null link in C; the model has no result for it.
\<close>

definition wl_list_remove :: "handler \<Rightarrow> handler set \<Rightarrow> handler set option" where
  "wl_list_remove h ls = (if h \<in> ls then Some (ls - {h}) else None)"

definition handle_destroy :: "device \<Rightarrow> (device \<times> call list) option" where
  "handle_destroy d =
     (case tablet d of
        None \<Rightarrow> None
      | Some t \<Rightarrow>
          do {
            l1 \<leftarrow> wl_list_remove Tip (linked d);
            l2 \<leftarrow> wl_list_remove Button l1;
            l3 \<leftarrow> wl_list_remove Proximity l2;
            l4 \<leftarrow> wl_list_remove Axis l3;
            l5 \<leftarrow> wl_list_remove Destroy l4;
            Some (\<lparr>tablet = None, linked = l5\<rparr>,
                  [Wl_list_remove Tip, Wl_list_remove Button, Wl_list_remove Proximity,
                   Wl_list_remove Axis, Wl_list_remove Destroy, Free_tablet])
          })"

text \<open>
  Modelled from the spec: the macro \<open>CONNECT_SIGNAL\<close> is defined in
  \<open>common/macros.h\<close>, outside the file embedded here. The spec says of the creation
  that it "subscribes to the device's axis/proximity/tip/button streams and to its own
  destroy notification", so
  \<open>CONNECT_SIGNAL\<close> links the named listener of \<open>tablet->handlers\<close>, with the handler
  of that name as its callback.
\<close>

definition CONNECT_SIGNAL :: "handler \<Rightarrow> handler set \<Rightarrow> handler set \<times> call list" where
  "CONNECT_SIGNAL h ls = (insert h ls, [Wl_signal_add h])"

text \<open>
  \<open>tablet_init\<close> for a seat and an input device of the given size. \<open>znew\<close> returns
  zeroed memory and ends the process when there is none, so the model starts where the
  allocation has succeeded.
\<close>

definition tablet_init :: "nat \<Rightarrow> nat \<Rightarrow> double \<Rightarrow> double \<Rightarrow> device \<times> call list" where
  "tablet_init seat_id wlr_device w h =
     (let t = \<lparr>seat = seat_id, base = wlr_device, width_mm = w, height_mm = h,
               tablet_x = Finite 0, tablet_y = Finite 0\<rparr>;
          (l1, c1) = CONNECT_SIGNAL Axis {};
          (l2, c2) = CONNECT_SIGNAL Proximity l1;
          (l3, c3) = CONNECT_SIGNAL Tip l2;
          (l4, c4) = CONNECT_SIGNAL Button l3;
          (l5, c5) = CONNECT_SIGNAL Destroy l4
      in (\<lparr>tablet = Some t, linked = l5\<rparr>,
          [Wlr_log ''setting up tablet'', Wlr_log ''tablet dimensions: %.2fmm x %.2fmm'']
            @ c1 @ c2 @ c3 @ c4 @ c5))"

text \<open>
  The event source. \<open>wl_signal_emit\<close> invokes the callback of a listener only while the
  listener is linked; the callback of an input event works on the record, which must
  still be there.
\<close>

datatype event =
    Axis_event wlr_tablet_tool_axis_event
  | Proximity_event wlr_tablet_tool_proximity_event
  | Tip_event wlr_tablet_tool_tip_event
  | Button_event wlr_tablet_tool_button_event
  | Destroy_event

definition invoke ::
  "handler \<Rightarrow> (drawing_tablet \<Rightarrow> drawing_tablet \<times> call list) \<Rightarrow> device
     \<Rightarrow> (device \<times> call list) option" where
  "invoke h callback d =
     (if h \<in> linked d
      then (case tablet d of
              None \<Rightarrow> None
            | Some t \<Rightarrow> (case callback t of (t', cs) \<Rightarrow> Some (d\<lparr>tablet := Some t'\<rparr>, Notify h # cs)))
      else Some (d, []))"

fun wl_signal_emit ::
  "rcxml_tablet \<Rightarrow> (32 word \<Rightarrow> 32 word) \<Rightarrow> event \<Rightarrow> device \<Rightarrow> (device \<times> call list) option" where
  "wl_signal_emit rc m (Axis_event ev) d = invoke Axis (handle_axis rc ev) d"
| "wl_signal_emit rc m (Proximity_event ev) d = invoke Proximity (handle_proximity ev) d"
| "wl_signal_emit rc m (Tip_event ev) d = invoke Tip (handle_tip m ev) d"
| "wl_signal_emit rc m (Button_event ev) d = invoke Button (handle_button m ev) d"
| "wl_signal_emit rc m Destroy_event d =
     (if Destroy \<in> linked d
      then (case handle_destroy d of
              None \<Rightarrow> None
            | Some (d', cs) \<Rightarrow> Some (d', Notify Destroy # cs))
      else Some (d, []))"

text \<open>A sequence of events, delivered one after the other; the calls are collected.\<close>

fun deliver ::
  "rcxml_tablet \<Rightarrow> (32 word \<Rightarrow> 32 word) \<Rightarrow> event list \<Rightarrow> device
     \<Rightarrow> (device \<times> call list) option" where
  "deliver rc m [] d = Some (d, [])"
| "deliver rc m (ev # evs) d =
     (case wl_signal_emit rc m ev d of
        None \<Rightarrow> None
      | Some (d1, cs1) \<Rightarrow>
          (case deliver rc m evs d1 of
             None \<Rightarrow> None
           | Some (d2, cs2) \<Rightarrow> Some (d2, cs1 @ cs2)))"

section \<open>Auxiliary facts\<close>

subsection \<open>Rounding to an integer\<close>

lemma rne_of_int [simp]: "rne (of_int k) = k"
  by (simp add: rne_def)

lemma rne_floor_le: "\<lfloor>t\<rfloor> \<le> rne t"
  by (simp add: rne_def Let_def)

lemma rne_le_floor_Suc: "rne t \<le> \<lfloor>t\<rfloor> + 1"
  by (simp add: rne_def Let_def)

lemma rne_mono: "t \<le> u \<Longrightarrow> rne t \<le> rne u"
proof -
  assume le: "t \<le> u"
  have fl: "\<lfloor>t\<rfloor> \<le> \<lfloor>u\<rfloor>" using le by (rule floor_mono)
  show ?thesis
  proof (cases "\<lfloor>t\<rfloor> = \<lfloor>u\<rfloor>")
    case True
    then show ?thesis using le by (auto simp add: rne_def Let_def)
  next
    case False
    with fl have "\<lfloor>t\<rfloor> + 1 \<le> \<lfloor>u\<rfloor>" by simp
    with rne_le_floor_Suc [of t] rne_floor_le [of u] show ?thesis by linarith
  qed
qed

lemma rne_minus: "rne (- t) = - rne t"
proof (cases "t = of_int \<lfloor>t\<rfloor>")
  case True
  then obtain k where "t = of_int k" ..
  then show ?thesis by (simp flip: of_int_minus)
next
  case False
  then have c: "\<lceil>t\<rceil> = \<lfloor>t\<rfloor> + 1" by (simp add: ceiling_altdef)
  have f: "\<lfloor>- t\<rfloor> = - \<lfloor>t\<rfloor> - 1" using c by (simp add: floor_minus)
  show ?thesis
    unfolding rne_def Let_def f by auto
qed

lemma rne_le: "t \<le> of_int k \<Longrightarrow> rne t \<le> k"
  using rne_mono [of t "of_int k"] by simp

lemma rne_ge: "of_int k \<le> t \<Longrightarrow> k \<le> rne t"
  using rne_mono [of "of_int k" t] by simp

subsection \<open>The binary exponent\<close>

lemma binade_minus [simp]: "binade (- r) = binade r"
  by (simp add: binade_def)

lemma binade_bounds:
  assumes "r \<noteq> 0"
  shows "2 powi binade r \<le> \<bar>r\<bar>" and "\<bar>r\<bar> < 2 powi (binade r + 1)"
proof -
  have "2 powi binade r \<le> \<bar>r\<bar> \<and> \<bar>r\<bar> < 2 powi (binade r + 1)"
  proof (cases "1 \<le> \<bar>r\<bar>")
    case True
    define n where "n = nat \<lfloor>\<bar>r\<bar>\<rfloor>"
    define k where "k = floorlog 2 n"
    have n: "0 < n" using True by (simp add: n_def)
    have nr: "real n \<le> \<bar>r\<bar>" "\<bar>r\<bar> < real n + 1"
      using True by (simp_all add: n_def)
    from floorlog_bounds [of n 2] n have b: "2 ^ (k - 1) \<le> n" "n < 2 ^ k"
      by (simp_all add: k_def)
    have k: "0 < k" using n floorlog_eq_zero_iff [of 2 n] by (simp add: k_def)
    have e: "binade r = int k - 1" using True by (simp add: binade_def n_def k_def)
    have p: "(2::real) powi (int k - 1) = 2 ^ (k - 1)"
      using k by (simp add: power_int_def nat_diff_distrib')
    have "(2::real) ^ (k - 1) \<le> real n" using b(1) by (metis of_nat_le_iff of_nat_numeral of_nat_power)
    then have 1: "(2::real) powi (int k - 1) \<le> \<bar>r\<bar>"
      unfolding p using nr(1) by linarith
    have "real n + 1 \<le> 2 ^ k" using b(2)
      by (metis Suc_leI of_nat_Suc of_nat_le_iff of_nat_numeral of_nat_power add.commute)
    then have 2: "\<bar>r\<bar> < (2::real) powi (int k - 1 + 1)"
      using nr(2) by simp
    from 1 2 e show ?thesis by simp
  next
    case False
    define t where "t = 1 / \<bar>r\<bar>"
    define c where "c = \<lceil>t\<rceil>"
    define n where "n = nat (c - 1)"
    define k where "k = floorlog 2 n"
    have r: "0 < \<bar>r\<bar>" "\<bar>r\<bar> < 1" using assms False by simp_all
    have t: "1 < t" using r by (simp add: t_def)
    have c2: "2 \<le> c" using t by (simp add: c_def le_ceiling_iff)
    have n: "0 < n" "int n = c - 1" using c2 by (simp_all add: n_def)
    have tc: "of_int c - 1 < t" "t \<le> of_int c" by (simp_all add: c_def) linarith
    from floorlog_bounds [of n 2] n have b: "2 ^ (k - 1) \<le> n" "n < 2 ^ k"
      by (simp_all add: k_def)
    have k: "0 < k" using n floorlog_eq_zero_iff [of 2 n] by (simp add: k_def)
    have e: "binade r = - int k" using False by (simp add: binade_def n_def k_def c_def t_def)
    have "(2::real) ^ (k - 1) \<le> real n" using b(1) by (metis of_nat_le_iff of_nat_numeral of_nat_power)
    also have "real n = of_int c - 1" using n(2) by (metis of_int_1 of_int_diff of_int_of_nat_eq)
    finally have lo: "(2::real) ^ (k - 1) < t" using tc(1) by linarith
    have "real n + 1 \<le> 2 ^ k" using b(2)
      by (metis Suc_leI of_nat_Suc of_nat_le_iff of_nat_numeral of_nat_power add.commute)
    then have "of_int c \<le> (2::real) ^ k"
      using \<open>real n = of_int c - 1\<close> by linarith
    then have hi: "t \<le> (2::real) ^ k" using tc(2) by linarith
    have rt: "\<bar>r\<bar> = 1 / t" using r by (simp add: t_def)
    have 1: "(2::real) powi (- int k) \<le> \<bar>r\<bar>"
      unfolding rt using hi t by (simp add: power_int_minus_divide frac_le)
    have p: "(2::real) powi (- int k + 1) = 1 / 2 ^ (k - 1)"
    proof -
      have "- int k + 1 = - int (k - 1)" using k by simp
      then show ?thesis by (simp only: power_int_minus_divide power_int_of_nat)
    qed
    have "1 / t < 1 / (2::real) ^ (k - 1)"
      using lo by (simp add: frac_less2)
    then have 2: "\<bar>r\<bar> < (2::real) powi (- int k + 1)"
      unfolding rt p .
    from 1 2 e show ?thesis by simp
  qed
  then show "2 powi binade r \<le> \<bar>r\<bar>" and "\<bar>r\<bar> < 2 powi (binade r + 1)" by simp_all
qed

subsection \<open>Rounding is monotone\<close>

lemma round_double_rounded:
  "round_double r =
     (if r = 0 then Finite 0
      else if huge \<le> \<bar>rounded r\<bar> then (if 0 < r then PlusInf else MinusInf)
      else Finite (rounded r))"
  by (simp add: round_double_def rounded_def Let_def)

lemma quantum_pos [simp]: "0 < quantum r"
  by (simp add: quantum_def)

lemma quantum_minus [simp]: "quantum (- r) = quantum r"
  by (simp add: quantum_def)

lemma rounded_minus [simp]: "rounded (- r) = - rounded r"
  by (simp add: rounded_def rne_minus)

lemma round_double_minus: "round_double (- r) = double_neg (round_double r)"
  by (simp add: round_double_rounded)

lemma pow2_less_cancel: "(2::real) powi a < 2 powi b \<Longrightarrow> a < b"
  by (rule ccontr) (simp add: not_less power_int_increasing leD)

lemma pow2_split: "(2::real) powi (e + 1) = 2 ^ 53 * 2 powi (e - 52)"
proof -
  have "e + 1 = 53 + (e - 52)" by simp
  then have "(2::real) powi (e + 1) = 2 powi (53 + (e - 52))" by (rule arg_cong)
  also have "\<dots> = 2 powi 53 * 2 powi (e - 52)" by (subst power_int_add) simp_all
  finally show ?thesis by simp
qed

lemma pow2_split': "(2::real) powi e = 2 ^ 52 * 2 powi (e - 52)"
proof -
  have "e = 52 + (e - 52)" by simp
  then have "(2::real) powi e = 2 powi (52 + (e - 52))" by (rule arg_cong)
  also have "\<dots> = 2 powi 52 * 2 powi (e - 52)" by (subst power_int_add) simp_all
  finally show ?thesis by simp
qed

lemma binade_mono:
  assumes "0 < r" "r \<le> s"
  shows "binade r \<le> binade s"
proof -
  have "2 powi binade r \<le> r" using binade_bounds(1) [of r] assms by simp
  also have "r \<le> s" by fact
  also have "s < 2 powi (binade s + 1)" using binade_bounds(2) [of s] assms by simp
  finally have "binade r < binade s + 1" by (rule pow2_less_cancel)
  then show ?thesis by simp
qed

lemma rounded_nonneg: "0 \<le> r \<Longrightarrow> 0 \<le> rounded r"
proof -
  assume "0 \<le> r"
  then have "of_int 0 \<le> r / quantum r" by (simp add: less_imp_le)
  then have "0 \<le> rne (r / quantum r)" by (rule rne_ge)
  then show ?thesis by (simp add: rounded_def less_imp_le)
qed

lemma rounded_upper:
  assumes "0 < r"
  shows "rounded r \<le> 2 powi (max (binade r) (- 1022) + 1)"
proof -
  let ?E = "max (binade r) (- 1022)"
  have "r < 2 powi (binade r + 1)" using binade_bounds(2) [of r] assms by simp
  also have "\<dots> \<le> 2 powi (?E + 1)" by (rule power_int_increasing) simp_all
  finally have "r < 2 ^ 53 * quantum r" by (simp add: quantum_def pow2_split [of ?E])
  then have "r / quantum r \<le> of_int (2 ^ 53)" by (simp add: pos_divide_le_eq)
  then have "rne (r / quantum r) \<le> 2 ^ 53" by (rule rne_le)
  then have "of_int (rne (r / quantum r)) \<le> (2::real) ^ 53"
    by (metis of_int_le_iff of_int_numeral of_int_power)
  then have "rounded r \<le> 2 ^ 53 * quantum r"
    by (simp add: rounded_def)
  then show ?thesis by (simp add: quantum_def pow2_split [of ?E])
qed

lemma rounded_lower:
  assumes "0 < r" "- 1022 \<le> binade r"
  shows "2 powi binade r \<le> rounded r"
proof -
  have q: "quantum r = 2 powi (binade r - 52)" using assms(2) by (simp add: quantum_def max_def)
  have "2 powi binade r \<le> r" using binade_bounds(1) [of r] assms by simp
  then have "2 ^ 52 * quantum r \<le> r" by (simp add: q pow2_split' [of "binade r"])
  then have "of_int (2 ^ 52) \<le> r / quantum r" by (simp add: pos_le_divide_eq)
  then have "2 ^ 52 \<le> rne (r / quantum r)" by (rule rne_ge)
  then have "(2::real) ^ 52 \<le> of_int (rne (r / quantum r))"
    by (metis of_int_le_iff of_int_numeral of_int_power)
  then have "2 ^ 52 * quantum r \<le> rounded r"
    by (simp add: rounded_def)
  then show ?thesis by (simp add: q pow2_split' [of "binade r"])
qed

lemma rounded_mono_pos:
  assumes "0 < r" "r \<le> s"
  shows "rounded r \<le> rounded s"
proof -
  let ?Er = "max (binade r) (- 1022)" and ?Es = "max (binade s) (- 1022)"
  have s: "0 < s" using assms by simp
  have E: "?Er \<le> ?Es" using binade_mono [OF assms] by simp
  show ?thesis
  proof (cases "?Er = ?Es")
    case True
    then have q: "quantum r = quantum s" by (simp add: quantum_def)
    have "r / quantum s \<le> s / quantum s" using assms(2) by (simp add: divide_right_mono less_imp_le)
    then have "rne (r / quantum s) \<le> rne (s / quantum s)" by (rule rne_mono)
    then show ?thesis by (simp add: rounded_def q)
  next
    case False
    with E have lt: "?Er + 1 \<le> ?Es" by simp
    then have b: "- 1022 \<le> binade s" "?Es = binade s" by (simp_all add: max_def split: if_splits)
    have "rounded r \<le> 2 powi (?Er + 1)" using assms(1) by (rule rounded_upper)
    also have "\<dots> \<le> 2 powi ?Es" using lt by (simp add: power_int_increasing)
    also have "\<dots> = 2 powi binade s" using b(2) by simp
    also have "\<dots> \<le> rounded s" using s b(1) by (rule rounded_lower)
    finally show ?thesis .
  qed
qed

lemma rounded_zero [simp]: "rounded 0 = 0"
  using rne_of_int [of 0] by (simp add: rounded_def)

lemma huge_pos [simp]: "0 < huge"
  by (simp add: huge_def)

lemma rounded_mono: "r \<le> s \<Longrightarrow> rounded r \<le> rounded s"
proof -
  assume le: "r \<le> s"
  consider "0 < r" | "s < 0" | "r \<le> 0" "0 \<le> s" by linarith
  then show ?thesis
  proof cases
    case 1
    then show ?thesis using le by (rule rounded_mono_pos)
  next
    case 2
    then have "0 < - s" "- s \<le> - r" using le by simp_all
    then have "rounded (- s) \<le> rounded (- r)" by (rule rounded_mono_pos)
    then show ?thesis by simp
  next
    case 3
    have "rounded r \<le> 0" using rounded_nonneg [of "- r"] 3(1) by simp
    also have "0 \<le> rounded s" using 3(2) by (rule rounded_nonneg)
    finally show ?thesis .
  qed
qed

lemma round_double_mono:
  assumes "r \<le> s"
  shows "double_le (round_double r) (round_double s)"
proof -
  have m: "rounded r \<le> rounded s" using assms by (rule rounded_mono)
  have sr: "0 < r \<longrightarrow> 0 \<le> rounded r" for r using rounded_nonneg [of r] by simp
  have sn: "r < 0 \<longrightarrow> rounded r \<le> 0" for r using rounded_nonneg [of "- r"] by simp
  have "r < 0 \<or> r = 0 \<or> 0 < r" "s < 0 \<or> s = 0 \<or> 0 < s" by linarith+
  then show ?thesis
    using m assms sr [of r] sr [of s] sn [of r] sn [of s] huge_pos
    by (auto simp add: round_double_rounded abs_if simp del: huge_pos split: if_splits)
qed

subsection \<open>Numbers that rounding leaves as they are\<close>

lemma pow2_add: "(2::real) powi (a + b) = 2 powi a * 2 powi b"
  by (rule power_int_add) simp

lemma pow2_diff: "(2::real) powi e = 2 powi (e - c) * 2 powi c"
  using pow2_add [of "e - c" c] by simp

lemma pow2_nat: "0 \<le> e \<Longrightarrow> (2::real) powi e = 2 ^ nat e"
  by (simp add: power_int_def)

lemma quantum_nz [simp]: "quantum r \<noteq> 0"
  by (metis quantum_pos less_irrefl)

lemma rounded_multiple:
  assumes "r = of_int k * quantum r"
  shows "rounded r = r"
proof -
  have "of_int k * quantum r / quantum r = real_of_int k" by simp
  with assms have "r / quantum r = of_int k" by metis
  then have "rne (r / quantum r) = k" by (simp only: rne_of_int)
  then have "rounded r = of_int k * quantum r" by (simp only: rounded_def)
  with assms show ?thesis by simp
qed

lemma round_double_exact:
  assumes r: "r = of_int m * 2 powi e" and m: "\<bar>m\<bar> < 2 ^ 53" and e: "- 1074 \<le> e"
    and h: "\<bar>r\<bar> < huge"
  shows "round_double r = Finite r"
proof (cases "r = 0")
  case True
  then show ?thesis by (simp add: round_double_def)
next
  case False
  let ?E = "max (binade r) (- 1022)"
  have "\<bar>r\<bar> = of_int \<bar>m\<bar> * 2 powi e" by (simp add: r abs_mult)
  also have "\<dots> < 2 ^ 53 * 2 powi e"
  proof -
    have "real_of_int \<bar>m\<bar> < 2 ^ 53" using m by (metis of_int_less_iff of_int_numeral of_int_power)
    then show ?thesis by (simp add: mult_strict_right_mono)
  qed
  also have "\<dots> = 2 powi (e + 53)"
    using pow2_add [of e 53] by simp
  finally have "\<bar>r\<bar> < 2 powi (e + 53)" .
  with binade_bounds(1) [OF False] have "(2::real) powi binade r < 2 powi (e + 53)" by linarith
  then have "binade r < e + 53" by (rule pow2_less_cancel)
  with e have d: "0 \<le> e - (?E - 52)" by simp
  define n where "n = nat (e - (?E - 52))"
  have "(2::real) powi e = 2 powi (e - (?E - 52)) * 2 powi (?E - 52)" by (rule pow2_diff)
  also have "2 powi (e - (?E - 52)) = (2::real) ^ n" unfolding n_def using d by (rule pow2_nat)
  finally have pe: "(2::real) powi e = 2 ^ n * quantum r" by (simp only: quantum_def)
  have "of_int m * 2 powi e = of_int (m * 2 ^ n) * quantum r"
    unfolding pe by simp
  with r have "r = of_int (m * 2 ^ n) * quantum r" by (rule trans)
  then have "rounded r = r" by (rule rounded_multiple)
  then show ?thesis using False h by (simp add: round_double_rounded)
qed

lemma round_double_0 [simp]: "round_double 0 = Finite 0"
  by (simp add: round_double_def)

lemma round_double_1 [simp]: "round_double 1 = Finite 1"
  using round_double_exact [of 1 1 0] by (simp add: huge_def)

lemma round_double_not_NaN [simp]: "round_double r \<noteq> NaN"
  by (simp add: round_double_def Let_def)

lemma round_double_unit:
  assumes "0 \<le> r" "r \<le> 1"
  shows "\<exists>v. round_double r = Finite v \<and> 0 \<le> v \<and> v \<le> 1"
proof -
  from round_double_mono [OF assms(1)] round_double_mono [OF assms(2)]
  show ?thesis by (cases "round_double r") simp_all
qed

lemma round_double_grid:
  assumes "0 \<le> k" "k \<le> 2 ^ 53"
  shows "round_double (of_int k / 2 ^ 53) = Finite (of_int k / 2 ^ 53)"
proof (cases "k = 2 ^ 53")
  case True
  then show ?thesis by simp
next
  case False
  with assms have k: "\<bar>k\<bar> < 2 ^ 53" by simp
  have r: "real_of_int k / 2 ^ 53 = of_int k * 2 powi (- 53)" by (simp add: power_int_minus_divide)
  have "real_of_int \<bar>k\<bar> < 2 ^ 53" using k by (metis of_int_less_iff of_int_numeral of_int_power)
  then have "\<bar>real_of_int k / 2 ^ 53\<bar> < 1" by simp
  then have "\<bar>real_of_int k / 2 ^ 53\<bar> < huge" by (simp add: huge_def)
  from round_double_exact [OF r k _ this] show ?thesis by simp
qed

subsection \<open>The sign of a rounded difference\<close>

lemma rounded_pos:
  assumes "0 < r" "2 powi (- 1074) \<le> r"
  shows "0 < rounded r"
proof (cases "- 1022 \<le> binade r")
  case True
  have "(0::real) < 2 powi binade r" by simp
  with rounded_lower [OF assms(1) True] show ?thesis by linarith
next
  case False
  then have q: "quantum r = 2 powi (- 1074)" by (simp add: quantum_def max_def)
  have "of_int 1 \<le> r / quantum r" using assms(2) by (simp add: q pos_le_divide_eq)
  then have "1 \<le> rne (r / quantum r)" by (rule rne_ge)
  then have "0 < real_of_int (rne (r / quantum r))" by simp
  then show ?thesis by (simp add: rounded_def)
qed

lemma is_double_multiple:
  assumes "round_double x = Finite x"
  shows "\<exists>j::int. x = of_int j * 2 powi (- 1074)"
proof (cases "x = 0")
  case True
  then show ?thesis by (intro exI [of _ 0]) simp
next
  case False
  let ?E = "max (binade x) (- 1022)"
  from assms False have x: "x = rounded x" by (simp add: round_double_rounded split: if_splits)
  define n where "n = nat (?E - 52 + 1074)"
  have "(2::real) powi (?E - 52) = 2 powi (?E - 52 - (- 1074)) * 2 powi (- 1074)"
    by (rule pow2_diff)
  also have "2 powi (?E - 52 - (- 1074)) = (2::real) ^ n"
  proof -
    have "0 \<le> ?E - 52 - (- 1074)" by simp
    then have "(2::real) powi (?E - 52 - (- 1074)) = 2 ^ nat (?E - 52 - (- 1074))" by (rule pow2_nat)
    then show ?thesis by (simp add: n_def)
  qed
  finally have q: "quantum x = 2 ^ n * 2 powi (- 1074)" by (simp only: quantum_def)
  have "rounded x = of_int (rne (x / quantum x) * 2 ^ n) * 2 powi (- 1074)"
    unfolding rounded_def by (subst q) simp
  with x have "x = of_int (rne (x / quantum x) * 2 ^ n) * 2 powi (- 1074)" by (rule trans)
  then show ?thesis ..
qed

lemma round_double_sub_neg:
  assumes a: "round_double a = Finite a" and b: "round_double b = Finite b" and lt: "a < b"
  shows "round_double (a - b) = MinusInf \<or> (\<exists>v. round_double (a - b) = Finite v \<and> v < 0)"
proof -
  from is_double_multiple [OF a] is_double_multiple [OF b] obtain i j :: int
    where ij: "a = of_int i * 2 powi (- 1074)" "b = of_int j * 2 powi (- 1074)" by blast
  have "i < j"
  proof (rule ccontr)
    assume "\<not> i < j"
    then have "real_of_int j \<le> of_int i" by simp
    then have "b \<le> a" unfolding ij by (simp add: mult_right_mono)
    with lt show False by simp
  qed
  then have "1 \<le> j - i" by simp
  then have "(1::real) \<le> of_int (j - i)" by (metis of_int_1_le_iff)
  then have "1 * 2 powi (- 1074) \<le> real_of_int (j - i) * 2 powi (- 1074)"
    by (intro mult_right_mono) simp_all
  then have "2 powi (- 1074) \<le> b - a" by (simp add: ij algebra_simps)
  with lt have "0 < rounded (b - a)" by (intro rounded_pos) simp_all
  then have "rounded (a - b) < 0" using rounded_minus [of "b - a"] by simp
  then show ?thesis using lt by (simp add: round_double_rounded)
qed

subsection \<open>Evaluation on numerals\<close>

lemma floorlog_numeral: "floorlog 2 (numeral n) = floorlog 2 (numeral n div 2) + 1"
  by (subst compute_floorlog) simp

lemma floorlog_small: "floorlog 2 0 = 0" "floorlog 2 1 = 1" "floorlog 2 (Suc 0) = 1"
  by (simp_all add: compute_floorlog)

lemmas binary64_eval =
  round_double_def quantum_def binade_def rne_def huge_def Let_def
  floorlog_numeral floorlog_small double_sub_def is_zero_def

lemma funpow_twice: "(f ^^ 2) x = f (f x)"
  by (simp add: eval_nat_numeral)

lemma funpow_four_times: "(f ^^ 4) x = f (f (f (f x)))"
  by (simp add: eval_nat_numeral)

subsection \<open>The operators and the order\<close>

lemma double_le_round_lower [simp]: "double_le MinusInf (round_double r)"
  by (cases "round_double r") simp_all

lemma double_le_round_upper [simp]: "double_le (round_double r) PlusInf"
  by (cases "round_double r") simp_all

lemma double_sub_Finite: "double_sub (Finite a) (Finite b) = round_double (a - b)"
  by (simp add: double_sub_def)

lemma double_sub_mono:
  assumes "a \<le> a'" "c \<noteq> NaN"
  shows "double_le (double_sub (Finite a) c) (double_sub (Finite a') c)"
  using assms by (cases c) (simp_all add: double_sub_def round_double_mono)

lemma double_mul_mono:
  assumes "double_le p q" "0 < w"
  shows "double_le (double_mul p (Finite w)) (double_mul q (Finite w))"
proof (cases p)
  case (Finite a)
  then show ?thesis using assms
    by (cases q) (simp_all add: round_double_mono mult_right_mono less_imp_le)
next
  case PlusInf
  then show ?thesis using assms by (cases q) simp_all
next
  case MinusInf
  then show ?thesis using assms by (cases q) simp_all
next
  case NaN
  then show ?thesis using assms by simp
qed

lemma double_div_antimono:
  assumes "double_le p q" "s < 0"
  shows "double_le (double_div q (Finite s)) (double_div p (Finite s))"
proof (cases p)
  case (Finite a)
  then show ?thesis using assms
    by (cases q) (simp_all add: round_double_mono divide_right_mono_neg less_imp_le)
next
  case PlusInf
  then show ?thesis using assms by (cases q) simp_all
next
  case MinusInf
  then show ?thesis using assms by (cases q) simp_all
next
  case NaN
  then show ?thesis using assms by simp
qed

subsection \<open>The unit interval\<close>

lemma one_minus_unit:
  assumes "in_unit_interval c"
  shows "in_unit_interval (double_sub (Finite 1) c)"
proof -
  from assms obtain r where c: "c = Finite r" and r: "0 \<le> r" "r \<le> 1"
    by (cases c) simp_all
  from r have "0 \<le> 1 - r" "1 - r \<le> 1" by simp_all
  from round_double_unit [OF this] show ?thesis by (auto simp add: c double_sub_Finite)
qed

lemma apply_rotation_unit_square: "p \<in> unit_square \<Longrightarrow> apply_rotation r p \<in> unit_square"
  by (cases r) (simp_all add: apply_rotation_def unit_square_def one_minus_unit)

lemma within_area_unit:
  assumes "within_area d off ext v"
  shows "in_unit_interval (scaled d off ext v)"
proof -
  from assms obtain n w where
    n: "millimetres d off v = Finite n" and w: "resolved_size d off ext = Finite w"
    and b: "0 \<le> n" "n \<le> w" "0 < w"
    by (auto simp add: within_area_def split: double.splits)
  from b have "0 \<le> n / w" "n / w \<le> 1" by simp_all
  from round_double_unit [OF this] b(3) show ?thesis
    by (auto simp add: scaled_def n w)
qed

subsection \<open>The grid\<close>

lemma on_grid_one_minus:
  assumes "on_grid c"
  obtains r where "c = Finite r" "double_sub (Finite 1) (Finite r) = Finite (1 - r)"
    "on_grid (Finite (1 - r))"
proof -
  from assms obtain r where c: "c = Finite r" by (cases c) simp_all
  with assms have "0 \<le> r \<and> r \<le> 1 \<and> of_int \<lfloor>r * 2 ^ 53\<rfloor> = r * 2 ^ 53"
    by (simp only: on_grid.simps)
  then have r: "0 \<le> r" "r \<le> 1" and g: "of_int \<lfloor>r * 2 ^ 53\<rfloor> = r * 2 ^ 53"
    by blast+
  define k where "k = \<lfloor>r * 2 ^ 53\<rfloor>"
  have "r * 2 ^ 53 = of_int k" using g by (simp only: k_def)
  then have rk: "r = of_int k / 2 ^ 53" by (simp add: field_simps)
  have k0: "0 \<le> k" using r(1) by (simp add: k_def)
  have "r * 2 ^ 53 \<le> of_int (2 ^ 53)" using r(2) by simp
  then have k1: "k \<le> 2 ^ 53" unfolding k_def by (metis floor_mono floor_of_int)
  have e: "1 - r = of_int (2 ^ 53 - k) / 2 ^ 53" by (simp add: rk diff_divide_distrib)
  have "round_double (of_int (2 ^ 53 - k) / 2 ^ 53) = Finite (of_int (2 ^ 53 - k) / 2 ^ 53)"
    using k0 k1 by (intro round_double_grid) simp_all
  then have 1: "double_sub (Finite 1) (Finite r) = Finite (1 - r)"
    by (simp only: double_sub_Finite e)
  have "(1 - r) * 2 ^ 53 = of_int (2 ^ 53 - k)" by (simp add: e)
  then have "of_int \<lfloor>(1 - r) * 2 ^ 53\<rfloor> = (1 - r) * 2 ^ 53" by (simp only: floor_of_int)
  moreover have "0 \<le> 1 - r" "1 - r \<le> 1" using r by simp_all
  ultimately have 2: "on_grid (Finite (1 - r))" by (simp only: on_grid.simps)
  from c 1 2 show ?thesis by (rule that)
qed

lemma on_grid_one_minus_twice:
  assumes "on_grid c"
  shows "double_sub (Finite 1) (double_sub (Finite 1) c) = c"
proof -
  from assms obtain r where c: "c = Finite r" "double_sub (Finite 1) (Finite r) = Finite (1 - r)"
    "on_grid (Finite (1 - r))" by (rule on_grid_one_minus)
  from c(3) obtain r' where r': "Finite (1 - r) = Finite r'"
    "double_sub (Finite 1) (Finite r') = Finite (1 - r')" by (rule on_grid_one_minus)
  from r'(1) have "r' = 1 - r" by simp
  with r'(2) have "double_sub (Finite 1) (Finite (1 - r)) = Finite r" by simp
  then show ?thesis by (simp only: c(1) c(2))
qed

lemma on_grid_one_minus_grid: "on_grid c \<Longrightarrow> on_grid (double_sub (Finite 1) c)"
  by (erule on_grid_one_minus) (simp only:)

lemma apply_rotation_grid_square: "p \<in> grid_square \<Longrightarrow> apply_rotation r p \<in> grid_square"
  by (cases r) (simp_all add: apply_rotation_def grid_square_def on_grid_one_minus_grid)

lemma apply_rotation_grid_inverse:
  "p \<in> grid_square \<Longrightarrow> apply_rotation (inverse_rotation r) (apply_rotation r p) = p"
  by (cases r) (simp_all add: apply_rotation_def grid_square_def on_grid_one_minus_twice)

lemma apply_rotation_grid_inverse':
  "p \<in> grid_square \<Longrightarrow> apply_rotation r (apply_rotation (inverse_rotation r) p) = p"
  by (cases r) (simp_all add: apply_rotation_def grid_square_def on_grid_one_minus_twice)

lemma on_grid_unit: "on_grid c \<Longrightarrow> in_unit_interval c"
  by (cases c) simp_all

subsection \<open>The active area, axis by axis\<close>

lemma adjust_x:
  assumes "\<not> all_zero box" "\<not> is_zero tw" "\<not> is_zero th"
  shows "fst (adjust_for_tablet_area tw th box x y) =
    (if axis_fits tw (box_x box) (box_width box)
     then scaled tw (box_x box) (box_width box) x else x)"
  using assms
  by (auto simp add: adjust_for_tablet_area_def all_zero_def resolved_size_def axis_fits_def
      scaled_def millimetres_def Let_def)

lemma adjust_y:
  assumes "\<not> all_zero box" "\<not> is_zero tw" "\<not> is_zero th"
  shows "snd (adjust_for_tablet_area tw th box x y) =
    (if axis_fits th (box_y box) (box_height box)
     then scaled th (box_y box) (box_height box) y else y)"
  using assms
  by (auto simp add: adjust_for_tablet_area_def all_zero_def resolved_size_def axis_fits_def
      scaled_def millimetres_def Let_def)

subsection \<open>A zero size with the offset beyond the edge\<close>

lemma resolved_size_negative:
  assumes "is_zero ext" "is_double (Finite d)" "is_double (Finite b)" "d < b"
  shows "is_negative (resolved_size (Finite d) (Finite b) ext)"
proof -
  from assms(2,3) have "round_double d = Finite d" "round_double b = Finite b" by simp_all
  from round_double_sub_neg [OF this assms(4)] show ?thesis
    using assms(1) by (auto simp add: resolved_size_def double_sub_Finite)
qed

lemma resolved_size_finite:
  assumes "is_zero ext" "is_double (Finite d)" "is_double (Finite b)" "d < b" "0 < d"
  obtains s where "resolved_size (Finite d) (Finite b) ext = Finite s" "s < 0"
proof -
  have "- b \<le> d - b" using assms(5) by simp
  then have "double_le (round_double (- b)) (round_double (d - b))" by (rule round_double_mono)
  moreover have "round_double (- b) = Finite (- b)"
    using assms(3) by (simp add: round_double_minus)
  ultimately have "double_le (Finite (- b)) (resolved_size (Finite d) (Finite b) ext)"
    using assms(1) by (simp add: resolved_size_def double_sub_Finite)
  with resolved_size_negative [OF assms(1-4)] that show ?thesis
    by (cases "resolved_size (Finite d) (Finite b) ext") simp_all
qed

lemma scaled_antimono:
  assumes "is_zero ext" "is_double (Finite d)" "is_double (Finite b)" "d < b" "0 < d"
    and "a \<le> a'"
  shows "double_le (scaled (Finite d) (Finite b) ext (Finite a'))
           (scaled (Finite d) (Finite b) ext (Finite a))"
proof -
  from assms(1-5) obtain s where s: "resolved_size (Finite d) (Finite b) ext = Finite s" "s < 0"
    by (rule resolved_size_finite)
  define off where "off = double_div (double_mul (Finite 1) (Finite b)) (Finite d)"
  have "off = round_double (b / d)" using assms(3,5) by (simp add: off_def)
  then have "off \<noteq> NaN" by simp
  with assms(6) have "double_le (double_sub (Finite a) off) (double_sub (Finite a') off)"
    by (rule double_sub_mono)
  then have "double_le (double_mul (double_sub (Finite a) off) (Finite d))
      (double_mul (double_sub (Finite a') off) (Finite d))"
    using assms(5) by (rule double_mul_mono)
  then have "double_le (millimetres (Finite d) (Finite b) (Finite a))
      (millimetres (Finite d) (Finite b) (Finite a'))"
    by (simp only: millimetres_def off_def)
  then show ?thesis
    unfolding scaled_def s(1) using s(2) by (rule double_div_antimono)
qed

subsection \<open>The axis handler\<close>

lemma axes_mask:
  "(m AND (WLR_TABLET_TOOL_AXIS_X OR WLR_TABLET_TOOL_AXIS_Y) = 0) =
   (m AND WLR_TABLET_TOOL_AXIS_X = 0 \<and> m AND WLR_TABLET_TOOL_AXIS_Y = 0)"
  by (simp add: bit.conj_disj_distrib or_eq_0_iff)

lemma handle_axis_emit:
  assumes "tool_supports_absolute_motion (axis_tool ev)"
    and "axis_updated_axes ev AND (WLR_TABLET_TOOL_AXIS_X OR WLR_TABLET_TOOL_AXIS_Y) \<noteq> 0"
  shows "handle_axis rc ev t =
    (let t' = t\<lparr>tablet_x := (if axis_updated_axes ev AND WLR_TABLET_TOOL_AXIS_X \<noteq> 0
                               then axis_x ev else tablet_x t),
                 tablet_y := (if axis_updated_axes ev AND WLR_TABLET_TOOL_AXIS_Y \<noteq> 0
                               then axis_y ev else tablet_y t)\<rparr>;
         p = apply_rotation (rc_tablet_rotation rc)
               (adjust_for_tablet_area (width_mm t) (height_mm t) (rc_tablet_box rc)
                  (tablet_x t') (tablet_y t'))
     in (t', [Cursor_emulate_move_absolute (seat t) (base t) (fst p) (snd p) (axis_time_msec ev)]))"
  using assms
  by (simp add: handle_axis_def Let_def apply_rotation_def split: prod.split)

lemma handle_axis_call_iff:
  "snd (handle_axis rc ev t) \<noteq> [] \<longleftrightarrow>
     tool_supports_absolute_motion (axis_tool ev)
     \<and> axis_updated_axes ev AND (WLR_TABLET_TOOL_AXIS_X OR WLR_TABLET_TOOL_AXIS_Y) \<noteq> 0"
  by (simp add: handle_axis_def Let_def split: prod.split)

subsection \<open>Listeners and delivery\<close>

lemma handle_destroy_all_linked:
  assumes "tablet d = Some t" "linked d = {Axis, Proximity, Tip, Button, Destroy}"
  shows "handle_destroy d =
    Some (\<lparr>tablet = None, linked = {}\<rparr>,
          [Wl_list_remove Tip, Wl_list_remove Button, Wl_list_remove Proximity,
           Wl_list_remove Axis, Wl_list_remove Destroy, Free_tablet])"
  using assms by (simp add: handle_destroy_def wl_list_remove_def insert_Diff_if)

lemma emit_unlinked:
  "linked d = {} \<Longrightarrow> wl_signal_emit rc m ev d = Some (d, [])"
  by (cases ev) (simp_all add: invoke_def)

lemma deliver_unlinked:
  "linked d = {} \<Longrightarrow> deliver rc m evs d = Some (d, [])"
  by (induction evs) (simp_all add: emit_unlinked)

lemma count_removals:
  "count_list [Wl_list_remove Tip, Wl_list_remove Button, Wl_list_remove Proximity,
           Wl_list_remove Axis, Wl_list_remove Destroy, Free_tablet] (Wl_list_remove h) = 1"
  by (cases h) simp_all

lemma tablet_init_linked:
  "tablet (fst (tablet_init s dev w h)) =
     Some \<lparr>seat = s, base = dev, width_mm = w, height_mm = h,
            tablet_x = Finite 0, tablet_y = Finite 0\<rparr>
   \<and> linked (fst (tablet_init s dev w h)) = {Axis, Proximity, Tip, Button, Destroy}"
  by (auto simp add: tablet_init_def CONNECT_SIGNAL_def)

lemma invoke_keeps:
  "invoke h f d = Some (d', cs) \<Longrightarrow> linked d' = linked d \<and> (tablet d = None) = (tablet d' = None)"
  by (auto simp add: invoke_def split: if_splits option.splits prod.splits)

lemma emit_keeps:
  "ev \<noteq> Destroy_event \<Longrightarrow> wl_signal_emit rc m ev d = Some (d', cs) \<Longrightarrow>
     linked d' = linked d \<and> (tablet d = None) = (tablet d' = None)"
  by (cases ev) (auto dest: invoke_keeps)

lemma deliver_keeps:
  "Destroy_event \<notin> set evs \<Longrightarrow> deliver rc m evs d = Some (d', cs) \<Longrightarrow>
     linked d' = linked d \<and> (tablet d = None) = (tablet d' = None)"
proof (induction evs arbitrary: d cs)
  case Nil
  then show ?case by simp
next
  case (Cons ev evs)
  from Cons.prems(2) obtain d1 cs1 cs2 where
    1: "wl_signal_emit rc m ev d = Some (d1, cs1)" and 2: "deliver rc m evs d1 = Some (d', cs2)"
    by (auto split: option.splits)
  from Cons.prems(1) have "ev \<noteq> Destroy_event" "Destroy_event \<notin> set evs" by auto
  with emit_keeps [OF _ 1] Cons.IH [OF _ 2] show ?case by simp
qed

lemma invoke_total:
  assumes "tablet d = Some t"
  shows "\<exists>d' cs. invoke h f d = Some (d', cs)"
  using assms by (cases "f t") (simp add: invoke_def)

lemma deliver_total_alive:
  "tablet d \<noteq> None \<Longrightarrow> Destroy_event \<notin> set evs \<Longrightarrow> \<exists>d' cs. deliver rc m evs d = Some (d', cs)"
proof (induction evs arbitrary: d)
  case Nil
  then show ?case by simp
next
  case (Cons ev evs)
  from Cons.prems have ne: "ev \<noteq> Destroy_event" "Destroy_event \<notin> set evs" by auto
  from Cons.prems(1) obtain t where "tablet d = Some t" by auto
  from invoke_total [OF this] ne(1) obtain d1 cs1 where
    1: "wl_signal_emit rc m ev d = Some (d1, cs1)"
    by (cases ev) (simp_all, blast+)
  from emit_keeps [OF ne(1) 1] Cons.prems(1) have "tablet d1 \<noteq> None" by simp
  from Cons.IH [OF this ne(2)] 1 show ?case by auto
qed

section \<open>Properties\<close>

subsection \<open>The classifier\<close>

text \<open>
  C10. \<open>tool_supports_absolute_motion\<close> is a function of the type tag alone; it is
  false for exactly the mouse and the lens tags and true for every other tag, the tags
  that the enumeration does not name included.
\<close>

theorem tool_supports_absolute_motion_iff:
  "tool_supports_absolute_motion t =
     (t \<noteq> WLR_TABLET_TOOL_TYPE_MOUSE \<and> t \<noteq> WLR_TABLET_TOOL_TYPE_LENS)"
  by (cases t) simp_all

subsection \<open>The active area\<close>

text \<open>
  C9. \<open>adjust_for_tablet_area\<close> returns both coordinates unchanged when the box is
  all zero, and when either physical dimension is zero, for every coordinate pair and
  every size.
\<close>

theorem adjust_for_tablet_area_noop:
  "all_zero box \<or> is_zero tw \<or> is_zero th \<Longrightarrow>
     adjust_for_tablet_area tw th box x y = (x, y)"
  by (auto simp add: adjust_for_tablet_area_def all_zero_def)

theorem adjust_for_tablet_area_noop_witness:
  "adjust_for_tablet_area (Finite 100) (Finite 50)
       \<lparr>box_x = Finite 0, box_y = Finite 0, box_width = Finite 0, box_height = Finite 0\<rparr>
       (Finite (1 / 4)) (Finite (3 / 4)) = (Finite (1 / 4), Finite (3 / 4))
   \<and> adjust_for_tablet_area (Finite 0) (Finite 50)
       \<lparr>box_x = Finite 10, box_y = Finite 0, box_width = Finite 80, box_height = Finite 0\<rparr>
       (Finite (1 / 4)) (Finite (3 / 4)) = (Finite (1 / 4), Finite (3 / 4))
   \<and> adjust_for_tablet_area (Finite 100) (Finite 0)
       \<lparr>box_x = Finite 10, box_y = Finite 0, box_width = Finite 80, box_height = Finite 0\<rparr>
       (Finite (1 / 4)) (Finite (3 / 4)) = (Finite (1 / 4), Finite (3 / 4))"
  using
    adjust_for_tablet_area_noop
      [of "\<lparr>box_x = Finite 0, box_y = Finite 0, box_width = Finite 0, box_height = Finite 0\<rparr>"
          "Finite 100" "Finite 50" "Finite (1 / 4)" "Finite (3 / 4)"]
    adjust_for_tablet_area_noop
      [of "\<lparr>box_x = Finite 10, box_y = Finite 0, box_width = Finite 80, box_height = Finite 0\<rparr>"
          "Finite 0" "Finite 50" "Finite (1 / 4)" "Finite (3 / 4)"]
    adjust_for_tablet_area_noop
      [of "\<lparr>box_x = Finite 10, box_y = Finite 0, box_width = Finite 80, box_height = Finite 0\<rparr>"
          "Finite 100" "Finite 0" "Finite (1 / 4)" "Finite (3 / 4)"]
  by (simp add: all_zero_def is_zero_def)

text \<open>
  C2. With a box that is not all zero and nonzero physical dimensions, each axis is
  decided on its own by the test the code makes, \<open>box.x + width <= tablet_width\<close> in
  double arithmetic with the resolved width (likewise for y): an axis that fails the
  test keeps its coordinate, an axis that passes it is adjusted, whatever happens on
  the other axis, and the function always returns a pair. A box with \<open>x = 50\<close> and
  \<open>width = 80\<close> on a surface 100 mm wide leaves the x coordinate as it is.
\<close>

theorem adjust_for_tablet_area_axes_independent:
  assumes "\<not> all_zero box" "\<not> is_zero tw" "\<not> is_zero th"
  shows
    "(\<not> axis_fits tw (box_x box) (box_width box) \<longrightarrow>
        fst (adjust_for_tablet_area tw th box x y) = x)
   \<and> (\<not> axis_fits th (box_y box) (box_height box) \<longrightarrow>
        snd (adjust_for_tablet_area tw th box x y) = y)
   \<and> (axis_fits tw (box_x box) (box_width box) \<longrightarrow>
        fst (adjust_for_tablet_area tw th box x y) = scaled tw (box_x box) (box_width box) x)
   \<and> (axis_fits th (box_y box) (box_height box) \<longrightarrow>
        snd (adjust_for_tablet_area tw th box x y) = scaled th (box_y box) (box_height box) y)
   \<and> (tw = Finite 100 \<and> box_x box = Finite 50 \<and> box_width box = Finite 80 \<longrightarrow>
        \<not> axis_fits tw (box_x box) (box_width box)
        \<and> fst (adjust_for_tablet_area tw th box x y) = x)"
proof -
  have e: "tw = Finite 100 \<and> box_x box = Finite 50 \<and> box_width box = Finite 80 \<longrightarrow>
      \<not> axis_fits tw (box_x box) (box_width box)"
    by (simp add: axis_fits_def resolved_size_def binary64_eval)
  have x: "fst (adjust_for_tablet_area tw th box x y) =
      (if axis_fits tw (box_x box) (box_width box)
       then scaled tw (box_x box) (box_width box) x else x)"
    using assms by (rule adjust_x)
  have y: "snd (adjust_for_tablet_area tw th box x y) =
      (if axis_fits th (box_y box) (box_height box)
       then scaled th (box_y box) (box_height box) y else y)"
    using assms by (rule adjust_y)
  from e show ?thesis unfolding x y by simp
qed

text \<open>
  At \<open>x = 50\<close>, \<open>width = 80\<close> on 100 mm the x coordinate stays, while the y axis
  (\<open>y = 12.5\<close>, \<open>height = 25\<close> on 50 mm) is adjusted; in the second box the x axis
  fits and is adjusted, and the y axis (\<open>25 + 40\<close> on 50 mm) stays.
\<close>

theorem adjust_for_tablet_area_axes_independent_witness:
  "\<not> all_zero \<lparr>box_x = Finite 50, box_y = Finite (25 / 2), box_width = Finite 80,
                 box_height = Finite 25\<rparr>
   \<and> \<not> all_zero \<lparr>box_x = Finite 25, box_y = Finite 25, box_width = Finite 50,
                   box_height = Finite 40\<rparr>
   \<and> \<not> is_zero (Finite 100) \<and> \<not> is_zero (Finite 50)
   \<and> adjust_for_tablet_area (Finite 100) (Finite 50)
        \<lparr>box_x = Finite 50, box_y = Finite (25 / 2), box_width = Finite 80, box_height = Finite 25\<rparr>
        (Finite (1 / 4)) (Finite (1 / 2)) = (Finite (1 / 4), Finite (1 / 2))
   \<and> adjust_for_tablet_area (Finite 100) (Finite 50)
        \<lparr>box_x = Finite 25, box_y = Finite 25, box_width = Finite 50, box_height = Finite 40\<rparr>
        (Finite (1 / 2)) (Finite (1 / 4)) = (Finite (1 / 2), Finite (1 / 4))"
  using
    adjust_for_tablet_area_axes_independent
      [of "\<lparr>box_x = Finite 50, box_y = Finite (25 / 2), box_width = Finite 80,
            box_height = Finite 25\<rparr>"
          "Finite 100" "Finite 50" "Finite (1 / 4)" "Finite (1 / 2)"]
    adjust_for_tablet_area_axes_independent
      [of "\<lparr>box_x = Finite 25, box_y = Finite 25, box_width = Finite 50, box_height = Finite 40\<rparr>"
          "Finite 100" "Finite 50" "Finite (1 / 2)" "Finite (1 / 4)"]
  by (simp add: all_zero_def axis_fits_def resolved_size_def scaled_def millimetres_def
      binary64_eval prod_eq_iff)

text \<open>
  C4. On an axis that is adjusted (box not all zero, physical dimensions nonzero, the
  test of the far edge passed) the result is
  \<open>(raw - offset / dimension) * dimension / size\<close> with the resolved size, computed in
  double arithmetic: the code multiplies the offset by the constant 1 first, which
  changes no double. With a width of 100 mm and the box \<open>(10, 0, 80, 0)\<close> the raw x
  coordinate \<open>0.5\<close> maps to \<open>0.5\<close> and \<open>0.1\<close> maps to \<open>0\<close>, for every nonzero
  height.
\<close>

theorem adjust_for_tablet_area_adjusted_value:
  assumes "\<not> all_zero box" "\<not> is_zero tw" "\<not> is_zero th"
  shows
    "(axis_fits tw (box_x box) (box_width box) \<longrightarrow>
        fst (adjust_for_tablet_area tw th box x y) = scaled tw (box_x box) (box_width box) x
      \<and> (is_double (box_x box) \<longrightarrow>
           fst (adjust_for_tablet_area tw th box x y) =
             double_div (double_mul (double_sub x (double_div (box_x box) tw)) tw)
               (resolved_size tw (box_x box) (box_width box))))
   \<and> (axis_fits th (box_y box) (box_height box) \<longrightarrow>
        snd (adjust_for_tablet_area tw th box x y) = scaled th (box_y box) (box_height box) y
      \<and> (is_double (box_y box) \<longrightarrow>
           snd (adjust_for_tablet_area tw th box x y) =
             double_div (double_mul (double_sub y (double_div (box_y box) th)) th)
               (resolved_size th (box_y box) (box_height box))))
   \<and> (tw = Finite 100
        \<and> box = \<lparr>box_x = Finite 10, box_y = Finite 0, box_width = Finite 80, box_height = Finite 0\<rparr>
      \<longrightarrow>
        (x = Finite (1 / 2) \<longrightarrow> fst (adjust_for_tablet_area tw th box x y) = Finite (1 / 2))
      \<and> (x = round_double (1 / 10) \<longrightarrow> fst (adjust_for_tablet_area tw th box x y) = Finite 0))"
proof -
  have one: "double_mul (Finite 1) d = d" if "is_double d" for d
    using that by (cases d) simp_all
  have X: "axis_fits tw (box_x box) (box_width box) \<longrightarrow>
        fst (adjust_for_tablet_area tw th box x y) = scaled tw (box_x box) (box_width box) x
      \<and> (is_double (box_x box) \<longrightarrow>
           fst (adjust_for_tablet_area tw th box x y) =
             double_div (double_mul (double_sub x (double_div (box_x box) tw)) tw)
               (resolved_size tw (box_x box) (box_width box)))"
    using assms by (simp add: adjust_x scaled_def millimetres_def one)
  have Y: "axis_fits th (box_y box) (box_height box) \<longrightarrow>
        snd (adjust_for_tablet_area tw th box x y) = scaled th (box_y box) (box_height box) y
      \<and> (is_double (box_y box) \<longrightarrow>
           snd (adjust_for_tablet_area tw th box x y) =
             double_div (double_mul (double_sub y (double_div (box_y box) th)) th)
               (resolved_size th (box_y box) (box_height box)))"
    using assms by (simp add: adjust_y scaled_def millimetres_def one)
  have E: "tw = Finite 100
        \<and> box = \<lparr>box_x = Finite 10, box_y = Finite 0, box_width = Finite 80, box_height = Finite 0\<rparr>
      \<longrightarrow>
        (x = Finite (1 / 2) \<longrightarrow> fst (adjust_for_tablet_area tw th box x y) = Finite (1 / 2))
      \<and> (x = round_double (1 / 10) \<longrightarrow> fst (adjust_for_tablet_area tw th box x y) = Finite 0)"
  proof (intro impI conjI)
    assume a: "tw = Finite 100
        \<and> box = \<lparr>box_x = Finite 10, box_y = Finite 0, box_width = Finite 80, box_height = Finite 0\<rparr>"
    then have f: "axis_fits tw (box_x box) (box_width box)"
      by (simp add: axis_fits_def resolved_size_def binary64_eval)
    have v1: "scaled (Finite 100) (Finite 10) (Finite 80) (Finite (1 / 2)) = Finite (1 / 2)"
      by (simp add: scaled_def millimetres_def resolved_size_def binary64_eval)
    have v2: "scaled (Finite 100) (Finite 10) (Finite 80) (round_double (1 / 10)) = Finite 0"
      by (simp add: scaled_def millimetres_def resolved_size_def binary64_eval)
    show "fst (adjust_for_tablet_area tw th box x y) = Finite (1 / 2)" if "x = Finite (1 / 2)"
      using assms a f that v1 by (simp add: adjust_x)
    show "fst (adjust_for_tablet_area tw th box x y) = Finite 0" if "x = round_double (1 / 10)"
      using assms a f that v2 by (simp add: adjust_x)
  qed
  from X Y E show ?thesis by blast
qed

text \<open>
  The example of the box \<open>(10, 0, 80, 0)\<close> on 100 mm by 50 mm, at the raw pairs
  \<open>(0.5, 0.25)\<close> and \<open>(0.1, 0.25)\<close>.
\<close>

theorem adjust_for_tablet_area_adjusted_value_witness:
  "\<not> all_zero \<lparr>box_x = Finite 10, box_y = Finite 0, box_width = Finite 80, box_height = Finite 0\<rparr>
   \<and> \<not> is_zero (Finite 100) \<and> \<not> is_zero (Finite 50)
   \<and> axis_fits (Finite 100) (Finite 10) (Finite 80) \<and> axis_fits (Finite 50) (Finite 0) (Finite 0)
   \<and> adjust_for_tablet_area (Finite 100) (Finite 50)
        \<lparr>box_x = Finite 10, box_y = Finite 0, box_width = Finite 80, box_height = Finite 0\<rparr>
        (Finite (1 / 2)) (Finite (1 / 4)) = (Finite (1 / 2), Finite (1 / 4))
   \<and> adjust_for_tablet_area (Finite 100) (Finite 50)
        \<lparr>box_x = Finite 10, box_y = Finite 0, box_width = Finite 80, box_height = Finite 0\<rparr>
        (round_double (1 / 10)) (Finite (1 / 4)) = (Finite 0, Finite (1 / 4))"
proof -
  let ?b = "\<lparr>box_x = Finite 10, box_y = Finite 0, box_width = Finite 80, box_height = Finite 0\<rparr>"
  have 1: "\<not> all_zero ?b" "\<not> is_zero (Finite 100)" "\<not> is_zero (Finite 50)"
    by (simp_all add: all_zero_def is_zero_def)
  have 2: "axis_fits (Finite 100) (Finite 10) (Finite 80)" "axis_fits (Finite 50) (Finite 0) (Finite 0)"
    by (simp_all add: axis_fits_def resolved_size_def binary64_eval)
  have 3: "scaled (Finite 50) (Finite 0) (Finite 0) (Finite (1 / 4)) = Finite (1 / 4)"
    by (simp add: scaled_def millimetres_def resolved_size_def binary64_eval)
  note T1 = adjust_for_tablet_area_adjusted_value [OF 1, of "Finite (1 / 2)" "Finite (1 / 4)"]
  note T2 = adjust_for_tablet_area_adjusted_value [OF 1, of "round_double (1 / 10)" "Finite (1 / 4)"]
  from T1 have x1: "fst (adjust_for_tablet_area (Finite 100) (Finite 50) ?b
      (Finite (1 / 2)) (Finite (1 / 4))) = Finite (1 / 2)" by blast
  from T2 have x2: "fst (adjust_for_tablet_area (Finite 100) (Finite 50) ?b
      (round_double (1 / 10)) (Finite (1 / 4))) = Finite 0" by blast
  from T1 2(2) 3 have y1: "snd (adjust_for_tablet_area (Finite 100) (Finite 50) ?b
      (Finite (1 / 2)) (Finite (1 / 4))) = Finite (1 / 4)" by simp
  from T2 2(2) 3 have y2: "snd (adjust_for_tablet_area (Finite 100) (Finite 50) ?b
      (round_double (1 / 10)) (Finite (1 / 4))) = Finite (1 / 4)" by simp
  from 1 2 x1 x2 y1 y2 show ?thesis by (simp add: prod_eq_iff)
qed

text \<open>
  C3. With a box that is not all zero, nonzero physical dimensions, a width of zero and
  an offset \<open>box.x\<close> beyond the physical width, the resolved width
  \<open>tablet_width - box.x\<close> is negative, and the test that skips an overflowing
  rectangle compares the rounded sum \<open>box.x + (tablet_width - box.x)\<close> with
  \<open>tablet_width\<close>. In exact arithmetic the two are equal; in double arithmetic the
  sum can come out above \<open>tablet_width\<close>. When the test passes, the x coordinate is
  adjusted with the negative width, and for a tablet of positive width the result runs
  against the input: a larger raw coordinate never gives a larger result. When the test
  fails, the coordinate is left as it is. The same holds on the y axis.
\<close>

theorem adjust_for_tablet_area_zero_size_beyond_edge:
  assumes "\<not> all_zero box" "\<not> is_zero tw" "\<not> is_zero th"
  shows
    "(is_zero (box_width box) \<and> tw = Finite w \<and> box_x box = Finite b \<and> w < b
        \<and> is_double tw \<and> is_double (box_x box) \<longrightarrow>
        is_negative (resolved_size tw (box_x box) (box_width box))
      \<and> (axis_fits tw (box_x box) (box_width box) \<longrightarrow>
           fst (adjust_for_tablet_area tw th box x y) = scaled tw (box_x box) (box_width box) x)
      \<and> (\<not> axis_fits tw (box_x box) (box_width box) \<longrightarrow>
           fst (adjust_for_tablet_area tw th box x y) = x)
      \<and> (axis_fits tw (box_x box) (box_width box) \<and> 0 < w
            \<and> x = Finite a \<and> x2 = Finite a2 \<and> a \<le> a2 \<longrightarrow>
           double_le (fst (adjust_for_tablet_area tw th box x2 y2))
             (fst (adjust_for_tablet_area tw th box x y))))
   \<and> (is_zero (box_height box) \<and> th = Finite h \<and> box_y box = Finite c \<and> h < c
        \<and> is_double th \<and> is_double (box_y box) \<longrightarrow>
        is_negative (resolved_size th (box_y box) (box_height box))
      \<and> (axis_fits th (box_y box) (box_height box) \<longrightarrow>
           snd (adjust_for_tablet_area tw th box x y) = scaled th (box_y box) (box_height box) y)
      \<and> (\<not> axis_fits th (box_y box) (box_height box) \<longrightarrow>
           snd (adjust_for_tablet_area tw th box x y) = y)
      \<and> (axis_fits th (box_y box) (box_height box) \<and> 0 < h
            \<and> y = Finite a' \<and> y2 = Finite a2' \<and> a' \<le> a2' \<longrightarrow>
           double_le (snd (adjust_for_tablet_area tw th box x2 y2))
             (snd (adjust_for_tablet_area tw th box x y))))"
proof -
  have fx: "fst (adjust_for_tablet_area tw th box u v) =
      (if axis_fits tw (box_x box) (box_width box)
       then scaled tw (box_x box) (box_width box) u else u)" for u v
    using assms by (rule adjust_x)
  have fy: "snd (adjust_for_tablet_area tw th box u v) =
      (if axis_fits th (box_y box) (box_height box)
       then scaled th (box_y box) (box_height box) v else v)" for u v
    using assms by (rule adjust_y)
  have X: "is_zero (box_width box) \<and> tw = Finite w \<and> box_x box = Finite b \<and> w < b
        \<and> is_double tw \<and> is_double (box_x box) \<longrightarrow>
        is_negative (resolved_size tw (box_x box) (box_width box))
      \<and> (axis_fits tw (box_x box) (box_width box) \<longrightarrow>
           fst (adjust_for_tablet_area tw th box x y) = scaled tw (box_x box) (box_width box) x)
      \<and> (\<not> axis_fits tw (box_x box) (box_width box) \<longrightarrow>
           fst (adjust_for_tablet_area tw th box x y) = x)
      \<and> (axis_fits tw (box_x box) (box_width box) \<and> 0 < w
            \<and> x = Finite a \<and> x2 = Finite a2 \<and> a \<le> a2 \<longrightarrow>
           double_le (fst (adjust_for_tablet_area tw th box x2 y2))
             (fst (adjust_for_tablet_area tw th box x y)))"
  proof (intro impI, elim conjE)
    assume h: "is_zero (box_width box)" "tw = Finite w" "box_x box = Finite b" "w < b"
      "is_double tw" "is_double (box_x box)"
    then have d: "is_double (Finite w)" "is_double (Finite b)" by simp_all
    have n: "is_negative (resolved_size tw (box_x box) (box_width box))"
      unfolding h(2,3) using h(1) d h(4) by (rule resolved_size_negative)
    have m: "double_le (scaled tw (box_x box) (box_width box) (Finite a2))
        (scaled tw (box_x box) (box_width box) (Finite a))" if "0 < w" "a \<le> a2"
      unfolding h(2,3) using h(1) d h(4) that by (rule scaled_antimono)
    from n m show "is_negative (resolved_size tw (box_x box) (box_width box))
      \<and> (axis_fits tw (box_x box) (box_width box) \<longrightarrow>
           fst (adjust_for_tablet_area tw th box x y) = scaled tw (box_x box) (box_width box) x)
      \<and> (\<not> axis_fits tw (box_x box) (box_width box) \<longrightarrow>
           fst (adjust_for_tablet_area tw th box x y) = x)
      \<and> (axis_fits tw (box_x box) (box_width box) \<and> 0 < w
            \<and> x = Finite a \<and> x2 = Finite a2 \<and> a \<le> a2 \<longrightarrow>
           double_le (fst (adjust_for_tablet_area tw th box x2 y2))
             (fst (adjust_for_tablet_area tw th box x y)))"
      by (simp add: fx)
  qed
  have Y: "is_zero (box_height box) \<and> th = Finite h \<and> box_y box = Finite c \<and> h < c
        \<and> is_double th \<and> is_double (box_y box) \<longrightarrow>
        is_negative (resolved_size th (box_y box) (box_height box))
      \<and> (axis_fits th (box_y box) (box_height box) \<longrightarrow>
           snd (adjust_for_tablet_area tw th box x y) = scaled th (box_y box) (box_height box) y)
      \<and> (\<not> axis_fits th (box_y box) (box_height box) \<longrightarrow>
           snd (adjust_for_tablet_area tw th box x y) = y)
      \<and> (axis_fits th (box_y box) (box_height box) \<and> 0 < h
            \<and> y = Finite a' \<and> y2 = Finite a2' \<and> a' \<le> a2' \<longrightarrow>
           double_le (snd (adjust_for_tablet_area tw th box x2 y2))
             (snd (adjust_for_tablet_area tw th box x y)))"
  proof (intro impI, elim conjE)
    assume h: "is_zero (box_height box)" "th = Finite h" "box_y box = Finite c" "h < c"
      "is_double th" "is_double (box_y box)"
    then have d: "is_double (Finite h)" "is_double (Finite c)" by simp_all
    have n: "is_negative (resolved_size th (box_y box) (box_height box))"
      unfolding h(2,3) using h(1) d h(4) by (rule resolved_size_negative)
    have m: "double_le (scaled th (box_y box) (box_height box) (Finite a2'))
        (scaled th (box_y box) (box_height box) (Finite a'))" if "0 < h" "a' \<le> a2'"
      unfolding h(2,3) using h(1) d h(4) that by (rule scaled_antimono)
    from n m show "is_negative (resolved_size th (box_y box) (box_height box))
      \<and> (axis_fits th (box_y box) (box_height box) \<longrightarrow>
           snd (adjust_for_tablet_area tw th box x y) = scaled th (box_y box) (box_height box) y)
      \<and> (\<not> axis_fits th (box_y box) (box_height box) \<longrightarrow>
           snd (adjust_for_tablet_area tw th box x y) = y)
      \<and> (axis_fits th (box_y box) (box_height box) \<and> 0 < h
            \<and> y = Finite a' \<and> y2 = Finite a2' \<and> a' \<le> a2' \<longrightarrow>
           double_le (snd (adjust_for_tablet_area tw th box x2 y2))
             (snd (adjust_for_tablet_area tw th box x y)))"
      by (simp add: fy)
  qed
  from X Y show ?thesis by (rule conjI)
qed

text \<open>
  A box at \<open>x = 96\<close>, \<open>y = 48\<close> with zero width and height on a tablet of 64 mm by
  32 mm: both axes pass the test and are adjusted with the sizes \<open>-32\<close> and \<open>-16\<close>,
  and the raw x coordinates \<open>1/4 < 3/4\<close> map to \<open>5/2 > 3/2\<close>.
\<close>

theorem adjust_for_tablet_area_zero_size_beyond_edge_witness:
  "\<not> all_zero \<lparr>box_x = Finite 96, box_y = Finite 48, box_width = Finite 0, box_height = Finite 0\<rparr>
   \<and> \<not> is_zero (Finite 64) \<and> \<not> is_zero (Finite 32)
   \<and> is_zero (Finite 0) \<and> (64 :: real) < 96 \<and> (32 :: real) < 48
   \<and> is_double (Finite 64) \<and> is_double (Finite 96) \<and> is_double (Finite 32) \<and> is_double (Finite 48)
   \<and> axis_fits (Finite 64) (Finite 96) (Finite 0) \<and> axis_fits (Finite 32) (Finite 48) (Finite 0)
   \<and> resolved_size (Finite 64) (Finite 96) (Finite 0) = Finite (- 32)
   \<and> resolved_size (Finite 32) (Finite 48) (Finite 0) = Finite (- 16)
   \<and> adjust_for_tablet_area (Finite 64) (Finite 32)
        \<lparr>box_x = Finite 96, box_y = Finite 48, box_width = Finite 0, box_height = Finite 0\<rparr>
        (Finite (1 / 4)) (Finite (1 / 2)) = (Finite (5 / 2), Finite 2)
   \<and> adjust_for_tablet_area (Finite 64) (Finite 32)
        \<lparr>box_x = Finite 96, box_y = Finite 48, box_width = Finite 0, box_height = Finite 0\<rparr>
        (Finite (3 / 4)) (Finite (1 / 2)) = (Finite (3 / 2), Finite 2)
   \<and> double_le (Finite (3 / 2)) (Finite (5 / 2))"
proof -
  let ?b = "\<lparr>box_x = Finite 96, box_y = Finite 48, box_width = Finite 0, box_height = Finite 0\<rparr>"
  have 1: "\<not> all_zero ?b" "\<not> is_zero (Finite 64)" "\<not> is_zero (Finite 32)"
    by (simp_all add: all_zero_def is_zero_def)
  have 2: "is_double (Finite 64)" "is_double (Finite 96)" "is_double (Finite 32)"
    "is_double (Finite 48)"
    by (simp_all add: binary64_eval)
  have 3: "axis_fits (Finite 64) (Finite 96) (Finite 0)" "axis_fits (Finite 32) (Finite 48) (Finite 0)"
    "resolved_size (Finite 64) (Finite 96) (Finite 0) = Finite (- 32)"
    "resolved_size (Finite 32) (Finite 48) (Finite 0) = Finite (- 16)"
    by (simp_all add: axis_fits_def resolved_size_def binary64_eval)
  have 4: "scaled (Finite 64) (Finite 96) (Finite 0) (Finite (1 / 4)) = Finite (5 / 2)"
    "scaled (Finite 64) (Finite 96) (Finite 0) (Finite (3 / 4)) = Finite (3 / 2)"
    "scaled (Finite 32) (Finite 48) (Finite 0) (Finite (1 / 2)) = Finite 2"
    by (simp_all add: scaled_def millimetres_def resolved_size_def binary64_eval)
  note T = adjust_for_tablet_area_zero_size_beyond_edge [OF 1,
      of 64 96 _ _ "1 / 4" _ "3 / 4" _ 32 48 "1 / 2" "1 / 2"]
  from T [of "Finite (1 / 4)" "Finite (1 / 2)" "Finite (3 / 4)" "Finite (1 / 2)"] 2 3
  have a: "fst (adjust_for_tablet_area (Finite 64) (Finite 32) ?b (Finite (1 / 4)) (Finite (1 / 2)))
        = scaled (Finite 64) (Finite 96) (Finite 0) (Finite (1 / 4))"
    "snd (adjust_for_tablet_area (Finite 64) (Finite 32) ?b (Finite (1 / 4)) (Finite (1 / 2)))
        = scaled (Finite 32) (Finite 48) (Finite 0) (Finite (1 / 2))"
    "double_le (fst (adjust_for_tablet_area (Finite 64) (Finite 32) ?b (Finite (3 / 4)) (Finite (1 / 2))))
       (fst (adjust_for_tablet_area (Finite 64) (Finite 32) ?b (Finite (1 / 4)) (Finite (1 / 2))))"
    by (auto simp add: is_zero_def)
  from T [of "Finite (3 / 4)" "Finite (1 / 2)" "Finite (3 / 4)" "Finite (1 / 2)"] 2 3
  have b: "fst (adjust_for_tablet_area (Finite 64) (Finite 32) ?b (Finite (3 / 4)) (Finite (1 / 2)))
        = scaled (Finite 64) (Finite 96) (Finite 0) (Finite (3 / 4))"
    "snd (adjust_for_tablet_area (Finite 64) (Finite 32) ?b (Finite (3 / 4)) (Finite (1 / 2)))
        = scaled (Finite 32) (Finite 48) (Finite 0) (Finite (1 / 2))"
    by (auto simp add: is_zero_def)
  from a(3) have "double_le (Finite (3 / 2)) (Finite (5 / 2))" by (simp only: a(1) b(1) 4)
  with 1 2 3 a b 4 show ?thesis by (simp add: prod_eq_iff is_zero_def)
qed

text \<open>
  The claim that the test always passes fails. On a tablet 242.73 mm wide with
  \<open>box.x = 500\<close> and a width of zero, \<open>500 + (242.73 - 500)\<close> is the double above
  242.73, the test fails and the x coordinate 0.25 is returned as it was. The result
  runs against the input only for a positive physical width: with the nonzero width
  \<open>-64\<close> and \<open>box.x = 32\<close> the test passes, the resolved width is \<open>-96\<close>, and
  the raw coordinates 0.25 and 0.75 map to 0.5 and to the double nearest to \<open>5/6\<close>.
\<close>

theorem adjust_for_tablet_area_zero_size_guard_fails:
  "\<not> all_zero \<lparr>box_x = Finite 500, box_y = Finite 0, box_width = Finite 0, box_height = Finite 0\<rparr>
   \<and> \<not> is_zero (round_double (24273 / 100)) \<and> \<not> is_zero (Finite 50)
   \<and> round_double (24273 / 100) = Finite (8540302637122191 / 2 ^ 45)
   \<and> double_add (Finite 500) (double_sub (round_double (24273 / 100)) (Finite 500))
       = Finite (8540302637122192 / 2 ^ 45)
   \<and> \<not> axis_fits (round_double (24273 / 100)) (Finite 500) (Finite 0)
   \<and> adjust_for_tablet_area (round_double (24273 / 100)) (Finite 50)
        \<lparr>box_x = Finite 500, box_y = Finite 0, box_width = Finite 0, box_height = Finite 0\<rparr>
        (Finite (1 / 4)) (Finite (1 / 2)) = (Finite (1 / 4), Finite (1 / 2))
   \<and> \<not> is_zero (Finite (- 64)) \<and> axis_fits (Finite (- 64)) (Finite 32) (Finite 0)
   \<and> resolved_size (Finite (- 64)) (Finite 32) (Finite 0) = Finite (- 96)
   \<and> fst (adjust_for_tablet_area (Finite (- 64)) (Finite 50)
        \<lparr>box_x = Finite 32, box_y = Finite 0, box_width = Finite 0, box_height = Finite 0\<rparr>
        (Finite (1 / 4)) (Finite (1 / 2))) = Finite (1 / 2)
   \<and> fst (adjust_for_tablet_area (Finite (- 64)) (Finite 50)
        \<lparr>box_x = Finite 32, box_y = Finite 0, box_width = Finite 0, box_height = Finite 0\<rparr>
        (Finite (3 / 4)) (Finite (1 / 2))) = round_double (5 / 6)
   \<and> \<not> double_le (round_double (5 / 6)) (Finite (1 / 2))"
  by (simp add: adjust_for_tablet_area_def all_zero_def axis_fits_def resolved_size_def
      binary64_eval)

subsection \<open>The arithmetic at some inputs\<close>

text \<open>
  The test of the far edge is made on rounded numbers. With a zero width on a tablet
  223.52 mm wide and \<open>box.x = 32.3\<close> the sum \<open>32.3 + (223.52 - 32.3)\<close> is the double
  above 223.52, and the x coordinate is left as it is. With \<open>box.x = 0.1\<close> and
  \<open>width = 99.9\<close> on 100 mm the sum of the two doubles is rounded to 100, and the x
  coordinate 0.5 is adjusted to 0.49949949949949946.
\<close>

lemma adjust_for_tablet_area_rounded_guard_fails:
  "\<not> axis_fits (round_double (22352 / 100)) (round_double (323 / 10)) (Finite 0)
   \<and> adjust_for_tablet_area (round_double (22352 / 100)) (Finite 50)
     \<lparr>box_x = round_double (323 / 10), box_y = Finite 0, box_width = Finite 0,
       box_height = Finite 0\<rparr>
     (Finite (1 / 2)) (Finite (1 / 2)) = (Finite (1 / 2), Finite (1 / 2))"
  by (simp add: adjust_for_tablet_area_def axis_fits_def resolved_size_def binary64_eval)

lemma adjust_for_tablet_area_rounded_guard_passes:
  "axis_fits (Finite 100) (round_double (1 / 10)) (round_double (999 / 10))
   \<and> fst (adjust_for_tablet_area (Finite 100) (Finite 50)
     \<lparr>box_x = round_double (1 / 10), box_y = Finite 0, box_width = round_double (999 / 10),
       box_height = Finite 0\<rparr>
     (Finite (1 / 2)) (Finite (1 / 2))) = round_double (49949949949949946 / 10 ^ 17)"
  by (simp add: adjust_for_tablet_area_def axis_fits_def resolved_size_def binary64_eval)

subsection \<open>The rotation\<close>

text \<open>
  C5. For each of the four rotations \<open>adjust_for_rotation\<close> maps the unit square
  into itself, and the setting \<open>LAB_ROTATE_NONE\<close> is the identity. The other three
  compute \<open>1.0 - c\<close>, which is rounded. On the pairs of the unit square whose
  coordinates are multiples of \<open>1 / 2 ^ 53\<close> no rounding takes place: there each
  rotation is a bijection, the rotation by 90 degrees applied four times and the
  rotation by 180 degrees applied twice give back the pair they started from, and on
  finite coordinates the rotations are the maps \<open>(1 - y, x)\<close>, \<open>(1 - x, 1 - y)\<close> and
  \<open>(y, 1 - x)\<close>.
\<close>

theorem apply_rotation_grid_bijection:
  "(p \<in> unit_square \<longrightarrow> apply_rotation r p \<in> unit_square)
   \<and> apply_rotation LAB_ROTATE_NONE p = p
   \<and> grid_square \<subseteq> unit_square
   \<and> bij_betw (apply_rotation r) grid_square grid_square
   \<and> (p \<in> grid_square \<longrightarrow>
        (apply_rotation LAB_ROTATE_90 ^^ 4) p = p
      \<and> (apply_rotation LAB_ROTATE_180 ^^ 2) p = p)
   \<and> ((Finite x, Finite y) \<in> grid_square \<longrightarrow>
        apply_rotation LAB_ROTATE_90 (Finite x, Finite y) = (Finite (1 - y), Finite x)
      \<and> apply_rotation LAB_ROTATE_180 (Finite x, Finite y) = (Finite (1 - x), Finite (1 - y))
      \<and> apply_rotation LAB_ROTATE_270 (Finite x, Finite y) = (Finite y, Finite (1 - x)))"
proof -
  have 1: "p \<in> unit_square \<longrightarrow> apply_rotation r p \<in> unit_square"
    by (simp add: apply_rotation_unit_square)
  have 2: "apply_rotation LAB_ROTATE_NONE p = p"
    by (simp add: apply_rotation_def)
  have 3: "grid_square \<subseteq> unit_square"
    by (auto simp add: grid_square_def unit_square_def on_grid_unit)
  have 4: "bij_betw (apply_rotation r) grid_square grid_square"
    by (rule bij_betw_byWitness [where f' = "apply_rotation (inverse_rotation r)"])
       (auto simp add: apply_rotation_grid_inverse apply_rotation_grid_inverse'
          apply_rotation_grid_square)
  have 5: "(apply_rotation LAB_ROTATE_90 ^^ 4) p = p \<and> (apply_rotation LAB_ROTATE_180 ^^ 2) p = p"
    if "p \<in> grid_square"
    using that
    by (simp add: funpow_twice funpow_four_times apply_rotation_def grid_square_def
        on_grid_one_minus_twice)
  have 6: "double_sub (Finite 1) (Finite c) = Finite (1 - c)" if "on_grid (Finite c)" for c
    using that by (rule on_grid_one_minus) simp
  have 7: "apply_rotation LAB_ROTATE_90 (Finite x, Finite y) = (Finite (1 - y), Finite x)
      \<and> apply_rotation LAB_ROTATE_180 (Finite x, Finite y) = (Finite (1 - x), Finite (1 - y))
      \<and> apply_rotation LAB_ROTATE_270 (Finite x, Finite y) = (Finite y, Finite (1 - x))"
    if "(Finite x, Finite y) \<in> grid_square"
    using that by (simp add: apply_rotation_def grid_square_def 6 del: on_grid.simps)
  from 1 2 3 4 5 7 show ?thesis by blast
qed

text \<open>The pair \<open>(1/4, 3/4)\<close> lies on the grid; the rotations turn it without rounding.\<close>

theorem apply_rotation_grid_bijection_witness:
  "(Finite (1 / 4), Finite (3 / 4)) \<in> grid_square
   \<and> (Finite (1 / 4), Finite (3 / 4)) \<in> unit_square
   \<and> apply_rotation LAB_ROTATE_90 (Finite (1 / 4), Finite (3 / 4)) = (Finite (1 / 4), Finite (1 / 4))
   \<and> apply_rotation LAB_ROTATE_90 (Finite (1 / 4), Finite (3 / 4)) \<in> unit_square
   \<and> (apply_rotation LAB_ROTATE_90 ^^ 4) (Finite (1 / 4), Finite (3 / 4))
       = (Finite (1 / 4), Finite (3 / 4))
   \<and> (apply_rotation LAB_ROTATE_180 ^^ 2) (Finite (1 / 4), Finite (3 / 4))
       = (Finite (1 / 4), Finite (3 / 4))"
proof -
  have g: "(Finite (1 / 4), Finite (3 / 4)) \<in> grid_square"
    by (simp add: grid_square_def)
  have u: "(Finite (1 / 4), Finite (3 / 4)) \<in> unit_square"
    by (simp add: unit_square_def)
  from apply_rotation_grid_bijection
    [of "(Finite (1 / 4), Finite (3 / 4))" LAB_ROTATE_90 "1 / 4" "3 / 4"] g u
  show ?thesis by auto
qed

text \<open>
  The claim for the whole unit square fails. The rotation by 90 degrees sends
  \<open>(1/2, 0)\<close> and \<open>(1/2, 1 / 2 ^ 60)\<close> to the same pair \<open>(1, 1/2)\<close>, so it is not
  one to one on the unit square; the rotation by 180 degrees applied twice sends
  \<open>(1 / 2 ^ 60, 0)\<close> to \<open>(0, 0)\<close>, and it sends the doubles \<open>(0.3, 0.7)\<close> to
  \<open>(0.30000000000000004, 0.7)\<close>.
\<close>

theorem apply_rotation_not_injective:
  "is_double (Finite (1 / 2)) \<and> is_double (Finite 0) \<and> is_double (Finite (1 / 2 ^ 60))
   \<and> (Finite (1 / 2), Finite 0) \<in> unit_square
   \<and> (Finite (1 / 2), Finite (1 / 2 ^ 60)) \<in> unit_square
   \<and> apply_rotation LAB_ROTATE_90 (Finite (1 / 2), Finite 0) = (Finite 1, Finite (1 / 2))
   \<and> apply_rotation LAB_ROTATE_90 (Finite (1 / 2), Finite (1 / 2 ^ 60)) = (Finite 1, Finite (1 / 2))
   \<and> \<not> bij_betw (apply_rotation LAB_ROTATE_90) unit_square unit_square
   \<and> (apply_rotation LAB_ROTATE_180 ^^ 2) (Finite (1 / 2 ^ 60), Finite 0) = (Finite 0, Finite 0)
   \<and> (apply_rotation LAB_ROTATE_180 ^^ 2) (round_double (3 / 10), round_double (7 / 10))
       = (Finite (5404319552844596 / 2 ^ 54), round_double (7 / 10))
   \<and> round_double (3 / 10) = Finite (5404319552844595 / 2 ^ 54)"
proof -
  have d: "is_double (Finite (1 / 2))" "is_double (Finite 0)" "is_double (Finite (1 / 2 ^ 60))"
    by (simp_all add: binary64_eval)
  have u: "(Finite (1 / 2), Finite 0) \<in> unit_square"
    "(Finite (1 / 2), Finite (1 / 2 ^ 60)) \<in> unit_square"
    by (simp_all add: unit_square_def)
  have a: "apply_rotation LAB_ROTATE_90 (Finite (1 / 2), Finite 0) = (Finite 1, Finite (1 / 2))"
    by (simp add: apply_rotation_def binary64_eval)
  have b: "apply_rotation LAB_ROTATE_90 (Finite (1 / 2), Finite (1 / 2 ^ 60))
      = (Finite 1, Finite (1 / 2))"
    by (simp add: apply_rotation_def binary64_eval)
  have n: "\<not> bij_betw (apply_rotation LAB_ROTATE_90) unit_square unit_square"
  proof
    assume "bij_betw (apply_rotation LAB_ROTATE_90) unit_square unit_square"
    then have "inj_on (apply_rotation LAB_ROTATE_90) unit_square" by (rule bij_betw_imp_inj_on)
    from inj_onD [OF this _ u] a b show False by simp
  qed
  have c: "(apply_rotation LAB_ROTATE_180 ^^ 2) (Finite (1 / 2 ^ 60), Finite 0) = (Finite 0, Finite 0)"
    by (simp add: funpow_twice apply_rotation_def binary64_eval)
  have e: "(apply_rotation LAB_ROTATE_180 ^^ 2) (round_double (3 / 10), round_double (7 / 10))
       = (Finite (5404319552844596 / 2 ^ 54), round_double (7 / 10))"
    "round_double (3 / 10) = Finite (5404319552844595 / 2 ^ 54)"
    by (simp_all add: funpow_twice apply_rotation_def binary64_eval)
  from d u a b n c e show ?thesis by blast
qed

subsection \<open>The handlers\<close>

text \<open>
  C6. An axis event of a tool that supports absolute motion whose update mask has the
  bit of the y axis and not the bit of the x axis leaves the stored x coordinate of the
  record as it was, stores the event's y, and makes one call of the absolute move whose
  coordinates are computed from the old stored x and the new y.
\<close>

theorem handle_axis_partial_update_keeps_x:
  assumes "tool_supports_absolute_motion (axis_tool ev)"
    and "axis_updated_axes ev AND WLR_TABLET_TOOL_AXIS_X = 0"
    and "axis_updated_axes ev AND WLR_TABLET_TOOL_AXIS_Y \<noteq> 0"
  shows "tablet_x (fst (handle_axis rc ev t)) = tablet_x t
    \<and> tablet_y (fst (handle_axis rc ev t)) = axis_y ev
    \<and> snd (handle_axis rc ev t) =
        [Cursor_emulate_move_absolute (seat t) (base t)
           (fst (apply_rotation (rc_tablet_rotation rc)
              (adjust_for_tablet_area (width_mm t) (height_mm t) (rc_tablet_box rc)
                 (tablet_x t) (axis_y ev))))
           (snd (apply_rotation (rc_tablet_rotation rc)
              (adjust_for_tablet_area (width_mm t) (height_mm t) (rc_tablet_box rc)
                 (tablet_x t) (axis_y ev))))
           (axis_time_msec ev)]"
proof -
  have "axis_updated_axes ev AND (WLR_TABLET_TOOL_AXIS_X OR WLR_TABLET_TOOL_AXIS_Y) \<noteq> 0"
    using assms(3) by (simp add: axes_mask)
  from handle_axis_emit [OF assms(1) this, of rc t] show ?thesis
    using assms(2,3) by (simp add: Let_def)
qed

text \<open>
  A pen event with the mask 2 and the coordinates \<open>(7/8, 1/4)\<close> on a record that
  holds \<open>(1/2, 3/4)\<close>: the record then holds \<open>(1/2, 1/4)\<close>, and the call is made for
  that pair, cropped to the box \<open>(10, 0, 80, 0)\<close> on 100 mm by 50 mm and rotated by 90
  degrees.
\<close>

theorem handle_axis_partial_update_keeps_x_witness:
  "tool_supports_absolute_motion WLR_TABLET_TOOL_TYPE_PEN
   \<and> (2 :: 32 word) AND WLR_TABLET_TOOL_AXIS_X = 0
   \<and> (2 :: 32 word) AND WLR_TABLET_TOOL_AXIS_Y \<noteq> 0
   \<and> tablet_x (fst (handle_axis
       \<lparr>rc_tablet_box = \<lparr>box_x = Finite 10, box_y = Finite 0, box_width = Finite 80,
           box_height = Finite 0\<rparr>,
        rc_tablet_rotation = LAB_ROTATE_90\<rparr>
       \<lparr>axis_tool = WLR_TABLET_TOOL_TYPE_PEN, axis_time_msec = 5, axis_updated_axes = 2,
        axis_x = Finite (7 / 8), axis_y = Finite (1 / 4)\<rparr>
       \<lparr>seat = 3, base = 7, width_mm = Finite 100, height_mm = Finite 50,
         tablet_x = Finite (1 / 2), tablet_y = Finite (3 / 4)\<rparr>)) = Finite (1 / 2)
   \<and> tablet_y (fst (handle_axis
       \<lparr>rc_tablet_box = \<lparr>box_x = Finite 10, box_y = Finite 0, box_width = Finite 80,
           box_height = Finite 0\<rparr>,
        rc_tablet_rotation = LAB_ROTATE_90\<rparr>
       \<lparr>axis_tool = WLR_TABLET_TOOL_TYPE_PEN, axis_time_msec = 5, axis_updated_axes = 2,
        axis_x = Finite (7 / 8), axis_y = Finite (1 / 4)\<rparr>
       \<lparr>seat = 3, base = 7, width_mm = Finite 100, height_mm = Finite 50,
         tablet_x = Finite (1 / 2), tablet_y = Finite (3 / 4)\<rparr>)) = Finite (1 / 4)
   \<and> snd (handle_axis
       \<lparr>rc_tablet_box = \<lparr>box_x = Finite 10, box_y = Finite 0, box_width = Finite 80,
           box_height = Finite 0\<rparr>,
        rc_tablet_rotation = LAB_ROTATE_90\<rparr>
       \<lparr>axis_tool = WLR_TABLET_TOOL_TYPE_PEN, axis_time_msec = 5, axis_updated_axes = 2,
        axis_x = Finite (7 / 8), axis_y = Finite (1 / 4)\<rparr>
       \<lparr>seat = 3, base = 7, width_mm = Finite 100, height_mm = Finite 50,
         tablet_x = Finite (1 / 2), tablet_y = Finite (3 / 4)\<rparr>)
     = [Cursor_emulate_move_absolute 3 7 (Finite (3 / 4)) (Finite (1 / 2)) 5]"
proof -
  let ?box = "\<lparr>box_x = Finite 10, box_y = Finite 0, box_width = Finite 80,
           box_height = Finite 0\<rparr>"
  let ?rc = "\<lparr>rc_tablet_box = ?box, rc_tablet_rotation = LAB_ROTATE_90\<rparr>"
  let ?ev = "\<lparr>axis_tool = WLR_TABLET_TOOL_TYPE_PEN, axis_time_msec = 5, axis_updated_axes = 2,
        axis_x = Finite (7 / 8), axis_y = Finite (1 / 4)\<rparr>"
  let ?t = "\<lparr>seat = 3, base = 7, width_mm = Finite 100, height_mm = Finite 50,
         tablet_x = Finite (1 / 2), tablet_y = Finite (3 / 4)\<rparr>"
  have 1: "tool_supports_absolute_motion (axis_tool ?ev)" by simp
  have 2: "axis_updated_axes ?ev AND WLR_TABLET_TOOL_AXIS_X = 0"
    by (simp add: WLR_TABLET_TOOL_AXIS_X_def)
  have 3: "axis_updated_axes ?ev AND WLR_TABLET_TOOL_AXIS_Y \<noteq> 0"
    by (simp add: WLR_TABLET_TOOL_AXIS_Y_def)
  have a: "adjust_for_tablet_area (Finite 100) (Finite 50) ?box (Finite (1 / 2)) (Finite (1 / 4))
      = (Finite (1 / 2), Finite (1 / 4))"
    by (simp add: adjust_for_tablet_area_def binary64_eval)
  have r: "apply_rotation LAB_ROTATE_90 (Finite (1 / 2), Finite (1 / 4))
      = (Finite (3 / 4), Finite (1 / 2))"
    by (simp add: apply_rotation_def binary64_eval)
  from handle_axis_partial_update_keeps_x [OF 1 2 3, of ?rc ?t] 2 3 show ?thesis
    by (simp add: a r)
qed

text \<open>
  C7. When the lookup gives 0 for the pen tip's code, the tip handler makes no call and
  returns the record as it was. Otherwise it makes exactly one call of the button
  emulation with the mapped code: pressed for a tip that goes down, released for a tip
  that goes up, and the code is the same in both.
\<close>

theorem handle_tip_one_call_or_none:
  assumes "tip_state down = WLR_TABLET_TOOL_TIP_DOWN" "tip_state up = WLR_TABLET_TOOL_TIP_UP"
  shows
    "(m BTN_TOOL_PEN = 0 \<longrightarrow>
        handle_tip m down t = (t, []) \<and> handle_tip m up t = (t, []))
   \<and> (m BTN_TOOL_PEN \<noteq> 0 \<longrightarrow>
        handle_tip m down t =
          (t, [Cursor_emulate_button (seat t) (m BTN_TOOL_PEN) WLR_BUTTON_PRESSED (tip_time_msec down)])
      \<and> handle_tip m up t =
          (t, [Cursor_emulate_button (seat t) (m BTN_TOOL_PEN) WLR_BUTTON_RELEASED (tip_time_msec up)]))"
  using assms by (simp add: handle_tip_def Let_def)

text \<open>
  With no mapping at all both tip events pass without a call; with the pen tip mapped
  to the code 272 the tip down presses 272 and the tip up releases 272.
\<close>

theorem handle_tip_one_call_or_none_witness:
  "tip_state \<lparr>tip_state = WLR_TABLET_TOOL_TIP_DOWN, tip_time_msec = 8\<rparr> = WLR_TABLET_TOOL_TIP_DOWN
   \<and> tip_state \<lparr>tip_state = WLR_TABLET_TOOL_TIP_UP, tip_time_msec = 9\<rparr> = WLR_TABLET_TOOL_TIP_UP
   \<and> handle_tip (\<lambda>c. 0) \<lparr>tip_state = WLR_TABLET_TOOL_TIP_DOWN, tip_time_msec = 8\<rparr>
        \<lparr>seat = 3, base = 7, width_mm = Finite 100, height_mm = Finite 50,
         tablet_x = Finite 0, tablet_y = Finite 0\<rparr>
      = (\<lparr>seat = 3, base = 7, width_mm = Finite 100, height_mm = Finite 50,
         tablet_x = Finite 0, tablet_y = Finite 0\<rparr>, [])
   \<and> handle_tip (\<lambda>c. if c = 320 then 272 else 0)
        \<lparr>tip_state = WLR_TABLET_TOOL_TIP_DOWN, tip_time_msec = 8\<rparr>
        \<lparr>seat = 3, base = 7, width_mm = Finite 100, height_mm = Finite 50,
         tablet_x = Finite 0, tablet_y = Finite 0\<rparr>
      = (\<lparr>seat = 3, base = 7, width_mm = Finite 100, height_mm = Finite 50,
         tablet_x = Finite 0, tablet_y = Finite 0\<rparr>,
         [Cursor_emulate_button 3 272 WLR_BUTTON_PRESSED 8])
   \<and> handle_tip (\<lambda>c. if c = 320 then 272 else 0)
        \<lparr>tip_state = WLR_TABLET_TOOL_TIP_UP, tip_time_msec = 9\<rparr>
        \<lparr>seat = 3, base = 7, width_mm = Finite 100, height_mm = Finite 50,
         tablet_x = Finite 0, tablet_y = Finite 0\<rparr>
      = (\<lparr>seat = 3, base = 7, width_mm = Finite 100, height_mm = Finite 50,
         tablet_x = Finite 0, tablet_y = Finite 0\<rparr>,
         [Cursor_emulate_button 3 272 WLR_BUTTON_RELEASED 9])"
  using
    handle_tip_one_call_or_none
      [of "\<lparr>tip_state = WLR_TABLET_TOOL_TIP_DOWN, tip_time_msec = 8\<rparr>"
          "\<lparr>tip_state = WLR_TABLET_TOOL_TIP_UP, tip_time_msec = 9\<rparr>"
          "\<lambda>c. 0"
          "\<lparr>seat = 3, base = 7, width_mm = Finite 100, height_mm = Finite 50,
         tablet_x = Finite 0, tablet_y = Finite 0\<rparr>"]
    handle_tip_one_call_or_none
      [of "\<lparr>tip_state = WLR_TABLET_TOOL_TIP_DOWN, tip_time_msec = 8\<rparr>"
          "\<lparr>tip_state = WLR_TABLET_TOOL_TIP_UP, tip_time_msec = 9\<rparr>"
          "\<lambda>c. if c = 320 then 272 else 0"
          "\<lparr>seat = 3, base = 7, width_mm = Finite 100, height_mm = Finite 50,
         tablet_x = Finite 0, tablet_y = Finite 0\<rparr>"]
  by (simp add: BTN_TOOL_PEN_def)

subsection \<open>The range of the emitted coordinates\<close>

text \<open>
  C1. The handler does not clamp, and a stored position outside the configured area is
  mapped outside the unit interval, so the pair handed to the absolute move is not in
  the unit square for every position and every configuration. It is in the unit square
  for every axis event that leads to a call under these conditions: the stored position
  after the update is in the unit square, and on every axis that the crop adjusts the
  resolved size \<open>w\<close> is positive and the distance in millimetres that the code
  computes, \<open>n = (stored - offset / dimension) * dimension\<close>, satisfies
  \<open>0 \<le> n \<le> w\<close>. An axis that is not adjusted, and every axis when the box is all
  zero or a physical dimension is zero, keeps the stored coordinate; the rotation maps
  the unit square into itself.
\<close>

theorem handle_axis_output_in_unit_square:
  assumes call: "snd (handle_axis rc ev t) \<noteq> []"
    and stored: "(tablet_x (fst (handle_axis rc ev t)), tablet_y (fst (handle_axis rc ev t)))
                  \<in> unit_square"
    and area: "all_zero (rc_tablet_box rc) \<or> is_zero (width_mm t) \<or> is_zero (height_mm t)
      \<or> ((axis_fits (width_mm t) (box_x (rc_tablet_box rc)) (box_width (rc_tablet_box rc)) \<longrightarrow>
           within_area (width_mm t) (box_x (rc_tablet_box rc)) (box_width (rc_tablet_box rc))
             (tablet_x (fst (handle_axis rc ev t))))
        \<and> (axis_fits (height_mm t) (box_y (rc_tablet_box rc)) (box_height (rc_tablet_box rc)) \<longrightarrow>
           within_area (height_mm t) (box_y (rc_tablet_box rc)) (box_height (rc_tablet_box rc))
             (tablet_y (fst (handle_axis rc ev t)))))"
  shows "\<exists>x y. snd (handle_axis rc ev t) =
            [Cursor_emulate_move_absolute (seat t) (base t) x y (axis_time_msec ev)]
          \<and> (x, y) \<in> unit_square"
proof -
  from call have tool: "tool_supports_absolute_motion (axis_tool ev)"
    and mask: "axis_updated_axes ev AND (WLR_TABLET_TOOL_AXIS_X OR WLR_TABLET_TOOL_AXIS_Y) \<noteq> 0"
    by (simp_all add: handle_axis_call_iff)
  define t' where "t' = fst (handle_axis rc ev t)"
  define box where "box = rc_tablet_box rc"
  define q where "q = adjust_for_tablet_area (width_mm t) (height_mm t) box (tablet_x t') (tablet_y t')"
  have emit: "snd (handle_axis rc ev t) =
      [Cursor_emulate_move_absolute (seat t) (base t)
         (fst (apply_rotation (rc_tablet_rotation rc) q)) (snd (apply_rotation (rc_tablet_rotation rc) q))
         (axis_time_msec ev)]"
    unfolding q_def t'_def box_def
    by (simp add: handle_axis_emit [OF tool mask] Let_def)
  have sx: "in_unit_interval (tablet_x t')" and sy: "in_unit_interval (tablet_y t')"
    using stored by (simp_all add: unit_square_def t'_def)
  have "q \<in> unit_square"
  proof (cases "all_zero box \<or> is_zero (width_mm t) \<or> is_zero (height_mm t)")
    case True
    then have "q = (tablet_x t', tablet_y t')"
      unfolding q_def by (auto simp add: adjust_for_tablet_area_def all_zero_def)
    then show ?thesis using sx sy by (simp add: unit_square_def)
  next
    case False
    then have nz: "\<not> all_zero box" "\<not> is_zero (width_mm t)" "\<not> is_zero (height_mm t)"
      by simp_all
    from area False have
      ax: "axis_fits (width_mm t) (box_x box) (box_width box) \<longrightarrow>
             within_area (width_mm t) (box_x box) (box_width box) (tablet_x t')"
      and ay: "axis_fits (height_mm t) (box_y box) (box_height box) \<longrightarrow>
             within_area (height_mm t) (box_y box) (box_height box) (tablet_y t')"
      by (simp_all add: box_def t'_def)
    have "in_unit_interval (fst q)"
      unfolding q_def using ax sx by (simp add: adjust_x [OF nz] within_area_unit)
    moreover have "in_unit_interval (snd q)"
      unfolding q_def using ay sy by (simp add: adjust_y [OF nz] within_area_unit)
    ultimately show ?thesis by (simp add: unit_square_def)
  qed
  then have "apply_rotation (rc_tablet_rotation rc) q \<in> unit_square"
    by (rule apply_rotation_unit_square)
  with emit show ?thesis
    by (metis prod.collapse)
qed

text \<open>
  A pen event at \<open>(1/2, 1/4)\<close> on a tablet of 100 mm by 50 mm with the box
  \<open>(10, 0, 80, 0)\<close> and a rotation by 90 degrees: the distances are 40 mm of 80 and
  12.5 mm of 50, and the call gets \<open>(3/4, 1/2)\<close>.
\<close>

theorem handle_axis_output_in_unit_square_witness:
  "snd (handle_axis
       \<lparr>rc_tablet_box = \<lparr>box_x = Finite 10, box_y = Finite 0, box_width = Finite 80,
           box_height = Finite 0\<rparr>,
        rc_tablet_rotation = LAB_ROTATE_90\<rparr>
       \<lparr>axis_tool = WLR_TABLET_TOOL_TYPE_PEN, axis_time_msec = 5, axis_updated_axes = 3,
        axis_x = Finite (1 / 2), axis_y = Finite (1 / 4)\<rparr>
       \<lparr>seat = 3, base = 7, width_mm = Finite 100, height_mm = Finite 50,
         tablet_x = Finite 0, tablet_y = Finite 0\<rparr>) \<noteq> []
   \<and> within_area (Finite 100) (Finite 10) (Finite 80) (Finite (1 / 2))
   \<and> within_area (Finite 50) (Finite 0) (Finite 0) (Finite (1 / 4))
   \<and> millimetres (Finite 100) (Finite 10) (Finite (1 / 2)) = Finite 40
   \<and> millimetres (Finite 50) (Finite 0) (Finite (1 / 4)) = Finite (25 / 2)
   \<and> (\<exists>x y. snd (handle_axis
       \<lparr>rc_tablet_box = \<lparr>box_x = Finite 10, box_y = Finite 0, box_width = Finite 80,
           box_height = Finite 0\<rparr>,
        rc_tablet_rotation = LAB_ROTATE_90\<rparr>
       \<lparr>axis_tool = WLR_TABLET_TOOL_TYPE_PEN, axis_time_msec = 5, axis_updated_axes = 3,
        axis_x = Finite (1 / 2), axis_y = Finite (1 / 4)\<rparr>
       \<lparr>seat = 3, base = 7, width_mm = Finite 100, height_mm = Finite 50,
         tablet_x = Finite 0, tablet_y = Finite 0\<rparr>)
      = [Cursor_emulate_move_absolute 3 7 x y 5] \<and> (x, y) \<in> unit_square)"
proof -
  let ?rc = "\<lparr>rc_tablet_box = \<lparr>box_x = Finite 10, box_y = Finite 0, box_width = Finite 80,
           box_height = Finite 0\<rparr>,
        rc_tablet_rotation = LAB_ROTATE_90\<rparr>"
  let ?ev = "\<lparr>axis_tool = WLR_TABLET_TOOL_TYPE_PEN, axis_time_msec = 5, axis_updated_axes = 3,
        axis_x = Finite (1 / 2), axis_y = Finite (1 / 4)\<rparr>"
  let ?t = "\<lparr>seat = 3, base = 7, width_mm = Finite 100, height_mm = Finite 50,
         tablet_x = Finite 0, tablet_y = Finite 0\<rparr>"
  have 1: "tool_supports_absolute_motion (axis_tool ?ev)" by simp
  have 2: "axis_updated_axes ?ev AND (WLR_TABLET_TOOL_AXIS_X OR WLR_TABLET_TOOL_AXIS_Y) \<noteq> 0"
    by (simp add: WLR_TABLET_TOOL_AXIS_X_def WLR_TABLET_TOOL_AXIS_Y_def)
  have c: "snd (handle_axis ?rc ?ev ?t) \<noteq> []"
    using 1 2 by (simp add: handle_axis_call_iff)
  have t': "tablet_x (fst (handle_axis ?rc ?ev ?t)) = Finite (1 / 2)"
    "tablet_y (fst (handle_axis ?rc ?ev ?t)) = Finite (1 / 4)"
    by (simp_all add: handle_axis_emit [OF 1 2] Let_def
        WLR_TABLET_TOOL_AXIS_X_def WLR_TABLET_TOOL_AXIS_Y_def)
  have 3: "(tablet_x (fst (handle_axis ?rc ?ev ?t)), tablet_y (fst (handle_axis ?rc ?ev ?t)))
      \<in> unit_square"
    by (simp add: t' unit_square_def)
  have m: "millimetres (Finite 100) (Finite 10) (Finite (1 / 2)) = Finite 40"
    "millimetres (Finite 50) (Finite 0) (Finite (1 / 4)) = Finite (25 / 2)"
    by (simp_all add: millimetres_def binary64_eval)
  have r: "resolved_size (Finite 100) (Finite 10) (Finite 80) = Finite 80"
    "resolved_size (Finite 50) (Finite 0) (Finite 0) = Finite 50"
    by (simp_all add: resolved_size_def binary64_eval)
  have w: "within_area (Finite 100) (Finite 10) (Finite 80) (Finite (1 / 2))"
    "within_area (Finite 50) (Finite 0) (Finite 0) (Finite (1 / 4))"
    by (simp_all add: within_area_def m r)
  have 4: "all_zero (rc_tablet_box ?rc) \<or> is_zero (width_mm ?t) \<or> is_zero (height_mm ?t)
      \<or> ((axis_fits (width_mm ?t) (box_x (rc_tablet_box ?rc)) (box_width (rc_tablet_box ?rc)) \<longrightarrow>
           within_area (width_mm ?t) (box_x (rc_tablet_box ?rc)) (box_width (rc_tablet_box ?rc))
             (tablet_x (fst (handle_axis ?rc ?ev ?t))))
        \<and> (axis_fits (height_mm ?t) (box_y (rc_tablet_box ?rc)) (box_height (rc_tablet_box ?rc)) \<longrightarrow>
           within_area (height_mm ?t) (box_y (rc_tablet_box ?rc)) (box_height (rc_tablet_box ?rc))
             (tablet_y (fst (handle_axis ?rc ?ev ?t)))))"
    using w by (simp add: t')
  from handle_axis_output_in_unit_square [OF c 3 4] c w m show ?thesis by simp
qed

text \<open>
  The claim without the conditions fails. On a tablet 100 mm wide with the box
  \<open>(10, 0, 80, 0)\<close> and no rotation, a pen event at \<open>x = 0.05\<close>, 5 mm from the left
  edge and so left of the area, is handed on with \<open>x = -1/16\<close>.
\<close>

theorem handle_axis_output_outside_unit_square:
  "snd (handle_axis
       \<lparr>rc_tablet_box = \<lparr>box_x = Finite 10, box_y = Finite 0, box_width = Finite 80,
           box_height = Finite 0\<rparr>,
        rc_tablet_rotation = LAB_ROTATE_NONE\<rparr>
       \<lparr>axis_tool = WLR_TABLET_TOOL_TYPE_PEN, axis_time_msec = 0, axis_updated_axes = 3,
        axis_x = round_double (1 / 20), axis_y = Finite (1 / 2)\<rparr>
       \<lparr>seat = 3, base = 7, width_mm = Finite 100, height_mm = Finite 50,
         tablet_x = Finite 0, tablet_y = Finite 0\<rparr>)
     = [Cursor_emulate_move_absolute 3 7 (Finite (- 1 / 16)) (Finite (1 / 2)) 0]
   \<and> in_unit_interval (round_double (1 / 20))
   \<and> \<not> in_unit_interval (Finite (- 1 / 16))"
proof -
  let ?rc = "\<lparr>rc_tablet_box = \<lparr>box_x = Finite 10, box_y = Finite 0, box_width = Finite 80,
           box_height = Finite 0\<rparr>,
        rc_tablet_rotation = LAB_ROTATE_NONE\<rparr>"
  let ?ev = "\<lparr>axis_tool = WLR_TABLET_TOOL_TYPE_PEN, axis_time_msec = 0, axis_updated_axes = 3,
        axis_x = round_double (1 / 20), axis_y = Finite (1 / 2)\<rparr>"
  have 1: "tool_supports_absolute_motion (axis_tool ?ev)" by simp
  have 2: "axis_updated_axes ?ev AND (WLR_TABLET_TOOL_AXIS_X OR WLR_TABLET_TOOL_AXIS_Y) \<noteq> 0"
    by (simp add: WLR_TABLET_TOOL_AXIS_X_def WLR_TABLET_TOOL_AXIS_Y_def)
  have a: "adjust_for_tablet_area (Finite 100) (Finite 50)
      \<lparr>box_x = Finite 10, box_y = Finite 0, box_width = Finite 80, box_height = Finite 0\<rparr>
      (round_double (1 / 20)) (Finite (1 / 2)) = (Finite (- 1 / 16), Finite (1 / 2))"
    by (simp add: adjust_for_tablet_area_def binary64_eval)
  have u: "in_unit_interval (round_double (1 / 20))"
    by (simp add: binary64_eval)
  show ?thesis
    using u
    by (simp add: handle_axis_emit [OF 1 2] Let_def a apply_rotation_def
        WLR_TABLET_TOOL_AXIS_X_def WLR_TABLET_TOOL_AXIS_Y_def)
qed

text \<open>
  The conditions cannot be replaced by the exact position of the stored point: on a
  tablet 100 mm wide with the box \<open>(11, 0, 14, 0)\<close> the raw coordinate 0.25 is the
  right edge of the area, the distance comes out as the double above 14, and the result
  is the double above 1.
\<close>

lemma adjust_for_tablet_area_right_edge:
  "adjust_for_tablet_area (Finite 100) (Finite 50)
     \<lparr>box_x = Finite 11, box_y = Finite 0, box_width = Finite 14, box_height = Finite 0\<rparr>
     (Finite (1 / 4)) (Finite (1 / 2)) = (Finite (1 + 1 / 2 ^ 52), Finite (1 / 2))
   \<and> \<not> within_area (Finite 100) (Finite 11) (Finite 14) (Finite (1 / 4))"
  by (simp add: adjust_for_tablet_area_def within_area_def millimetres_def resolved_size_def
      binary64_eval)

subsection \<open>Destruction\<close>

text \<open>
  C8. When the destroy signal is emitted for a device whose record is live and whose five
  listeners are linked, as \<open>tablet_init\<close> leaves them, the destroy handler removes
  each of the five listeners (tip, button, proximity, axis, destroy) exactly once,
  releases the record once, and does so after all the removals. Afterwards the record
  is gone and no listener is linked, so whatever events are emitted for the device,
  under any configuration and any button mapping, no callback is invoked and no call
  is made.
\<close>

theorem handle_destroy_revokes_all:
  assumes "tablet d = Some t" "linked d = {Axis, Proximity, Tip, Button, Destroy}"
  shows "\<exists>d' cs.
      wl_signal_emit rc m Destroy_event d = Some (d', Notify Destroy # cs)
    \<and> handle_destroy d = Some (d', cs)
    \<and> cs = [Wl_list_remove Tip, Wl_list_remove Button, Wl_list_remove Proximity,
             Wl_list_remove Axis, Wl_list_remove Destroy, Free_tablet]
    \<and> (\<forall>h. count_list cs (Wl_list_remove h) = 1)
    \<and> count_list cs Free_tablet = 1 \<and> last cs = Free_tablet
    \<and> tablet d' = None \<and> linked d' = {}
    \<and> (\<forall>rc' m' evs. deliver rc' m' evs d' = Some (d', []))"
proof -
  let ?d' = "\<lparr>tablet = None, linked = {}\<rparr>"
  let ?cs = "[Wl_list_remove Tip, Wl_list_remove Button, Wl_list_remove Proximity,
             Wl_list_remove Axis, Wl_list_remove Destroy, Free_tablet]"
  have hd: "handle_destroy d = Some (?d', ?cs)"
    using assms by (rule handle_destroy_all_linked)
  have "wl_signal_emit rc m Destroy_event d = Some (?d', Notify Destroy # ?cs)"
    using assms(2) by (simp add: hd)
  moreover have "\<forall>h. count_list ?cs (Wl_list_remove h) = 1"
    using count_removals by blast
  moreover have "\<forall>rc' m' evs. deliver rc' m' evs ?d' = Some (?d', [])"
    by (simp add: deliver_unlinked)
  ultimately show ?thesis using hd by simp
qed

text \<open>
  The device that \<open>tablet_init\<close> creates for the seat 3 and a tablet of 100 mm by
  50 mm: the destroy signal runs the handler, and a tip event and a second destroy
  signal after it reach no callback.
\<close>

theorem handle_destroy_revokes_all_witness:
  "tablet (fst (tablet_init 3 7 (Finite 100) (Finite 50))) =
      Some \<lparr>seat = 3, base = 7, width_mm = Finite 100, height_mm = Finite 50,
         tablet_x = Finite 0, tablet_y = Finite 0\<rparr>
   \<and> linked (fst (tablet_init 3 7 (Finite 100) (Finite 50))) = {Axis, Proximity, Tip, Button, Destroy}
   \<and> wl_signal_emit
        \<lparr>rc_tablet_box = \<lparr>box_x = Finite 10, box_y = Finite 0, box_width = Finite 80,
           box_height = Finite 0\<rparr>,
         rc_tablet_rotation = LAB_ROTATE_90\<rparr>
        (\<lambda>c. if c = 320 then 272 else 0) Destroy_event (fst (tablet_init 3 7 (Finite 100) (Finite 50))) =
       Some (\<lparr>tablet = None, linked = {}\<rparr>,
             [Notify Destroy, Wl_list_remove Tip, Wl_list_remove Button, Wl_list_remove Proximity,
              Wl_list_remove Axis, Wl_list_remove Destroy, Free_tablet])
   \<and> deliver
        \<lparr>rc_tablet_box = \<lparr>box_x = Finite 10, box_y = Finite 0, box_width = Finite 80,
           box_height = Finite 0\<rparr>,
         rc_tablet_rotation = LAB_ROTATE_90\<rparr>
        (\<lambda>c. if c = 320 then 272 else 0)
        [Tip_event \<lparr>tip_state = WLR_TABLET_TOOL_TIP_DOWN, tip_time_msec = 9\<rparr>, Destroy_event]
        \<lparr>tablet = None, linked = {}\<rparr> = Some (\<lparr>tablet = None, linked = {}\<rparr>, [])"
proof -
  let ?d = "fst (tablet_init 3 7 (Finite 100) (Finite 50))"
  let ?rc = "\<lparr>rc_tablet_box = \<lparr>box_x = Finite 10, box_y = Finite 0, box_width = Finite 80,
           box_height = Finite 0\<rparr>,
         rc_tablet_rotation = LAB_ROTATE_90\<rparr>"
  let ?m = "\<lambda>c :: 32 word. if c = 320 then 272 else 0 :: 32 word"
  let ?cs = "[Wl_list_remove Tip, Wl_list_remove Button, Wl_list_remove Proximity,
              Wl_list_remove Axis, Wl_list_remove Destroy, Free_tablet]"
  have 1: "tablet ?d =
      Some \<lparr>seat = 3, base = 7, width_mm = Finite 100, height_mm = Finite 50,
         tablet_x = Finite 0, tablet_y = Finite 0\<rparr>"
    and 2: "linked ?d = {Axis, Proximity, Tip, Button, Destroy}"
    using tablet_init_linked [of 3 7 "Finite 100" "Finite 50"] by simp_all
  from handle_destroy_revokes_all [OF 1 2, of ?rc ?m] obtain d' where
    e: "wl_signal_emit ?rc ?m Destroy_event ?d = Some (d', Notify Destroy # ?cs)"
    and t: "tablet d' = None" and l: "linked d' = {}"
    and a: "\<forall>rc' m' evs. deliver rc' m' evs d' = Some (d', [])"
    by blast
  have d': "d' = \<lparr>tablet = None, linked = {}\<rparr>"
    using t l by simp
  from a have "deliver ?rc ?m
      [Tip_event \<lparr>tip_state = WLR_TABLET_TOOL_TIP_DOWN, tip_time_msec = 9\<rparr>, Destroy_event] d'
    = Some (d', [])"
    by blast
  with 1 2 e show ?thesis
    unfolding d' by blast
qed

end
